theory Spec2Isabelle
  imports Main
begin

section \<open>MaterialX node definitions and graph compilation (hdusd/mx_nodes/nodes/base_node.py)\<close>

text \<open>
  A shallow embedding of \<^verbatim>\<open>base_node.py\<close>: the type mapper (\<^verbatim>\<open>parse_val\<close>,
  \<^verbatim>\<open>MxNode.create_property\<close>), the node type builder (\<^verbatim>\<open>MxNodedef.new\<close>,
  \<^verbatim>\<open>MxNode.new\<close>, \<^verbatim>\<open>create_node_types\<close>) and the graph compiler
  (\<^verbatim>\<open>MxNode.compute\<close>, \<^verbatim>\<open>MxNode_Output.compute\<close> and the input helpers).

  Strings are \<open>char list\<close>, one \<open>char\<close> per code point, so the model covers code points
  below 256. In that range Python's \<^verbatim>\<open>\d\<close> is \<^verbatim>\<open>0\<close>..\<^verbatim>\<open>9\<close>. Python dictionaries are
  association lists in insertion order.
\<close>

subsection \<open>Errors and log records\<close>

datatype error = ValueError | TypeError | AttributeError | KeyError | IndexError | RecursionError

datatype log_entry =
    LogCompute nat "string option"
      \<comment> \<open>\<^verbatim>\<open>log("compute", self, out_key)\<close>; the output node logs no key\<close>
  | LogWarnUnsupportedNode nat
      \<comment> \<open>\<^verbatim>\<open>log.warn("Ignoring unsupported node", node)\<close>\<close>
  | LogErrorInvalidLink nat string string nat
      \<comment> \<open>\<^verbatim>\<open>log.error("Invalid link found", link, socket_in, self)\<close>:
          the link's source node and socket, the input socket, the node\<close>
  | LogWarnUnsupportedType string string string
      \<comment> \<open>\<^verbatim>\<open>log.warn("Unsupported mx_type", mx_type, mx_param, parent name)\<close>\<close>
  | LogErrorNodedef string error
      \<comment> \<open>\<^verbatim>\<open>log.error(mx_node_def.getName(), e)\<close>\<close>

definition bind_err :: "'e + 'a \<Rightarrow> ('a \<Rightarrow> 'e + 'b) \<Rightarrow> 'e + 'b" where
  "bind_err m f = (case m of Inl e \<Rightarrow> Inl e | Inr x \<Rightarrow> f x)"

subsection \<open>What the module imports\<close>

text \<open>
  \<^verbatim>\<open>title_str\<close> and \<^verbatim>\<open>code_str\<close> come from \<^verbatim>\<open>hdusd.utils\<close>, \<^verbatim>\<open>int\<close> and
  \<^verbatim>\<open>float\<close> are Python's (they raise ValueError on a string they cannot read), and
  \<^verbatim>\<open>getattr(mx, name, None)\<close> asks the MaterialX module for a value class. None of them
  is defined in this file of the repository, so they are parameters of the model; \<open>'f\<close>
  is the type of Python floats.
\<close>

record 'f runtime =
  title_str :: "string \<Rightarrow> string"
  code_str :: "string \<Rightarrow> string"
  py_int :: "string \<Rightarrow> int option"
  py_float :: "string \<Rightarrow> 'f option"
  mx_has_type :: "string \<Rightarrow> bool"

subsection \<open>Python string operations\<close>

text \<open>\<^verbatim>\<open>val.split(',')\<close>: cuts at every comma; the result is never empty.\<close>

fun split_str :: "string \<Rightarrow> string list" where
  "split_str [] = [[]]"
| "split_str (c # cs) =
     (if c = CHR '','' then [] # split_str cs
      else (case split_str cs of [] \<Rightarrow> [[c]] | t # ts \<Rightarrow> (c # t) # ts))"

text \<open>\<^verbatim>\<open>','.join(ts)\<close>, to say what \<open>split_str\<close> returns.\<close>

fun join_commas :: "string list \<Rightarrow> string" where
  "join_commas [] = []"
| "join_commas [t] = t"
| "join_commas (t # u # ts) = t @ CHR '','' # join_commas (u # ts)"

text \<open>\<^verbatim>\<open>str.isspace\<close> on one code point below 256, and \<^verbatim>\<open>x.strip()\<close>.\<close>

definition isspace :: "char \<Rightarrow> bool" where
  "isspace c = (of_char c \<in> {9, 10, 11, 12, 13, 28, 29, 30, 31, 32, 133, 160 :: nat})"

definition strip :: "string \<Rightarrow> string" where
  "strip s = rev (dropWhile isspace (rev (dropWhile isspace s)))"

text \<open>The regular expressions of \<^verbatim>\<open>create_property\<close>, each used with \<^verbatim>\<open>re.fullmatch\<close>.\<close>

definition is_digit :: "char \<Rightarrow> bool" where
  "is_digit c = (48 \<le> (of_char c :: nat) \<and> (of_char c :: nat) \<le> 57)"

text \<open>\<^verbatim>\<open>int(m[1])\<close> on a single digit.\<close>

definition digit_val :: "char \<Rightarrow> nat" where
  "digit_val c = of_char c - 48"

definition match_matrix :: "string \<Rightarrow> (char \<times> char) option" where
  \<comment> \<open>\<^verbatim>\<open>re.fullmatch('matrix(\d)(\d)', mx_type)\<close>\<close>
  "match_matrix mx_type =
     (if length mx_type = 8 \<and> take 6 mx_type = ''matrix''
         \<and> is_digit (mx_type ! 6) \<and> is_digit (mx_type ! 7)
      then Some (mx_type ! 6, mx_type ! 7) else None)"

definition match_color :: "string \<Rightarrow> char option" where
  \<comment> \<open>\<^verbatim>\<open>re.fullmatch('color(\d)', mx_type)\<close>\<close>
  "match_color mx_type =
     (if length mx_type = 6 \<and> take 5 mx_type = ''color'' \<and> is_digit (mx_type ! 5)
      then Some (mx_type ! 5) else None)"

definition match_vector :: "string \<Rightarrow> char option" where
  \<comment> \<open>\<^verbatim>\<open>re.fullmatch('vector(\d)', mx_type)\<close>\<close>
  "match_vector mx_type =
     (if length mx_type = 7 \<and> take 6 mx_type = ''vector'' \<and> is_digit (mx_type ! 6)
      then Some (mx_type ! 6) else None)"

definition match_array :: "string \<Rightarrow> bool" where
  \<comment> \<open>\<^verbatim>\<open>re.fullmatch('(.+)array', mx_type)\<close>: the group is not empty, and \<^verbatim>\<open>.\<close> does
      not match a newline\<close>
  "match_array mx_type =
     (5 < length mx_type \<and> drop (length mx_type - 5) mx_type = ''array''
        \<and> CHR 0x0A \<notin> set (take (length mx_type - 5) mx_type))"

subsection \<open>Property types and \<^verbatim>\<open>parse_val\<close>\<close>

datatype prop_type =
    StringProperty | IntProperty | FloatProperty | EnumProperty
  | FloatVectorProperty | IntVectorProperty | BoolProperty | PointerProperty

datatype 'f pyval =
    PStr string | PInt int | PFloat 'f | PBool bool
  | PFloats "'f list" | PStrs "string list" | PNone

definition parse_val :: "'f runtime \<Rightarrow> prop_type \<Rightarrow> string \<Rightarrow> bool \<Rightarrow> error + 'f pyval" where
  "parse_val rt prop_type val first_only =
     (if prop_type = StringProperty then Inr (PStr val)
      else if prop_type = IntProperty then
        (case py_int rt val of None \<Rightarrow> Inl ValueError | Some i \<Rightarrow> Inr (PInt i))
      else if prop_type = FloatProperty then
        (case py_float rt val of None \<Rightarrow> Inl ValueError | Some x \<Rightarrow> Inr (PFloat x))
      else if prop_type = BoolProperty then Inr (PBool (val = ''true''))
      else if prop_type = FloatVectorProperty then
        (case those (map (py_float rt) (split_str val)) of
           None \<Rightarrow> Inl ValueError
         | Some res \<Rightarrow>
             if first_only then (case res of [] \<Rightarrow> Inl IndexError | x # _ \<Rightarrow> Inr (PFloat x))
             else Inr (PFloats res))
      else if prop_type = EnumProperty then
        (let res = map strip (split_str val) in
         if first_only then (case res of [] \<Rightarrow> Inl IndexError | x # _ \<Rightarrow> Inr (PStr x))
         else Inr (PStrs res))
      else Inr PNone)"

subsection \<open>MaterialX elements read by the module\<close>

text \<open>
  A parameter, input or output of a node definition: \<^verbatim>\<open>getName()\<close>, \<^verbatim>\<open>getType()\<close>, its
  attributes, and \<^verbatim>\<open>getParent().getName()\<close>.
\<close>

record mx_param =
  p_name :: string
  p_type :: string
  p_attrs :: "(string \<times> string) list"
  p_parent :: string

definition hasAttribute :: "(string \<times> string) list \<Rightarrow> string \<Rightarrow> bool" where
  "hasAttribute attrs k = (map_of attrs k \<noteq> None)"

definition getAttribute :: "(string \<times> string) list \<Rightarrow> string \<Rightarrow> string" where
  \<comment> \<open>the empty string when the attribute is absent\<close>
  "getAttribute attrs k = (case map_of attrs k of None \<Rightarrow> [] | Some v \<Rightarrow> v)"

record mx_nodedef =
  nd_name :: string
  nd_node_string :: string
  nd_attrs :: "(string \<times> string) list"
  nd_parameters :: "mx_param list"
  nd_inputs :: "mx_param list"
  nd_outputs :: "mx_param list"

text \<open>\<^verbatim>\<open>d[k] = v\<close> on a dictionary: a key already present keeps its place.\<close>

fun dict_set :: "('k \<times> 'v) list \<Rightarrow> 'k \<Rightarrow> 'v \<Rightarrow> ('k \<times> 'v) list" where
  "dict_set [] k v = [(k, v)]"
| "dict_set ((k', v') # kvs) k v =
     (if k' = k then (k, v) # kvs else (k', v') # dict_set kvs k v)"

subsection \<open>\<^verbatim>\<open>MxNode.create_property\<close>\<close>

datatype 'f attr =
    AStr string
  | ANat nat
  | AItems "(string \<times> string \<times> string) list"
  | AVal "'f pyval"

type_synonym 'f prop_attrs = "(string \<times> 'f attr) list"

definition shader_types :: "string list" where
  "shader_types = [''surfaceshader'', ''displacementshader'', ''volumeshader'', ''lightshader'',
                   ''material'', ''BSDF'', ''VDF'', ''EDF'']"

text \<open>
  The \<^verbatim>\<open>while True\<close> block, left by \<^verbatim>\<open>break\<close>: the property type, the attributes set
  so far, and what was logged.
\<close>

definition type_block ::
  "'f runtime \<Rightarrow> mx_param \<Rightarrow> error + (prop_type \<times> 'f prop_attrs \<times> log_entry list)" where
  "type_block rt mx_param =
     (let mx_type = p_type mx_param in
      if mx_type = ''string'' then
        (if hasAttribute (p_attrs mx_param) ''enum'' then
           (case parse_val rt EnumProperty (getAttribute (p_attrs mx_param) ''enum'') False of
              Inl e \<Rightarrow> Inl e
            | Inr (PStrs items) \<Rightarrow>
                Inr (EnumProperty,
                     dict_set [] ''items''
                       (AItems (map (\<lambda>it. (it, title_str rt it, title_str rt it)) items)),
                     [])
            | Inr _ \<Rightarrow> Inl TypeError)
         else Inr (StringProperty, [], []))
      else if mx_type = ''filename'' then
        Inr (StringProperty, dict_set [] ''subtype'' (AStr ''FILE_PATH''), [])
      else if mx_type = ''integer'' then Inr (IntProperty, [], [])
      else if mx_type = ''float'' then Inr (FloatProperty, [], [])
      else if mx_type = ''boolean'' then Inr (BoolProperty, [], [])
      else if mx_type \<in> set shader_types then Inr (StringProperty, [], [])
      else (case match_matrix mx_type of
        Some (r, c) \<Rightarrow>
          Inr (FloatVectorProperty,
               dict_set (dict_set [] ''subtype'' (AStr ''MATRIX''))
                 ''size'' (ANat (digit_val r * digit_val c)),
               [])
      | None \<Rightarrow> (case match_color mx_type of
        Some n \<Rightarrow>
          Inr (FloatVectorProperty,
               dict_set (dict_set [] ''subtype'' (AStr ''COLOR'')) ''size'' (ANat (digit_val n)),
               [])
      | None \<Rightarrow> (case match_vector mx_type of
        Some n \<Rightarrow>
          (let dim = digit_val n in
           Inr (FloatVectorProperty,
                dict_set (dict_set [] ''subtype'' (AStr (if dim = 3 then ''XYZ'' else ''NONE'')))
                  ''size'' (ANat dim),
                []))
      | None \<Rightarrow>
          if match_array mx_type then Inr (StringProperty, [], [])
          else Inr (StringProperty, [],
                    [LogWarnUnsupportedType mx_type (p_name mx_param) (p_parent mx_param)])))))"

text \<open>
  \<^verbatim>\<open>if mx_param.hasAttribute(a): prop_attrs[key] = parse_val(prop_type, ..., first_only)\<close>
\<close>

definition set_parsed ::
  "'f runtime \<Rightarrow> prop_type \<Rightarrow> mx_param \<Rightarrow> string \<Rightarrow> string \<Rightarrow> bool \<Rightarrow> 'f prop_attrs
     \<Rightarrow> error + 'f prop_attrs" where
  "set_parsed rt prop_type mx_param a key first_only prop_attrs =
     (if hasAttribute (p_attrs mx_param) a then
        (case parse_val rt prop_type (getAttribute (p_attrs mx_param) a) first_only of
           Inl e \<Rightarrow> Inl e
         | Inr v \<Rightarrow> Inr (dict_set prop_attrs key (AVal v)))
      else Inr prop_attrs)"

text \<open>
  The result is what was logged, and either the exception raised or the triple
  \<^verbatim>\<open>(prop_name, prop_type, prop_attrs)\<close>.
\<close>

definition create_property ::
  "'f runtime \<Rightarrow> mx_param \<Rightarrow> log_entry list \<times> (error + (string \<times> prop_type \<times> 'f prop_attrs))" where
  "create_property rt mx_param =
     (case type_block rt mx_param of
        Inl e \<Rightarrow> ([], Inl e)
      | Inr (prop_type, attrs0, lg) \<Rightarrow>
          (lg,
           let attrs1 = dict_set attrs0 ''name''
                 (AStr (if hasAttribute (p_attrs mx_param) ''uiname''
                        then getAttribute (p_attrs mx_param) ''uiname''
                        else title_str rt (p_name mx_param)));
               attrs2 = dict_set attrs1 ''description''
                 (AStr (getAttribute (p_attrs mx_param) ''doc''))
           in
           bind_err (set_parsed rt prop_type mx_param ''uimin'' ''min'' True attrs2) (\<lambda>attrs3.
           bind_err (set_parsed rt prop_type mx_param ''uimax'' ''max'' True attrs3) (\<lambda>attrs4.
           bind_err (set_parsed rt prop_type mx_param ''uisoftmin'' ''soft_min'' True attrs4) (\<lambda>attrs5.
           bind_err (set_parsed rt prop_type mx_param ''uisoftmax'' ''soft_max'' True attrs5) (\<lambda>attrs6.
           bind_err (set_parsed rt prop_type mx_param ''value'' ''default''
                       (prop_type = EnumProperty) attrs6) (\<lambda>attrs7.
           Inr (p_name mx_param, prop_type, attrs7))))))))"

subsection \<open>\<^verbatim>\<open>MxNodedef.new\<close>\<close>

text \<open>
  The generated class: its name, the node definition it holds and its
  \<^verbatim>\<open>__annotations__\<close>.
\<close>

record 'f nodedef_type =
  ndt_class_name :: string
  ndt_mx_nodedef :: mx_nodedef
  ndt_annotations :: "(string \<times> prop_type \<times> 'f prop_attrs) list"

text \<open>
  One of the three loops of \<^verbatim>\<open>MxNodedef.new\<close>:
  \<^verbatim>\<open>annotations[prefix + prop_name] = prop_type, prop_attrs\<close> for each element.
\<close>

fun annotate ::
  "'f runtime \<Rightarrow> string \<Rightarrow> mx_param list
     \<Rightarrow> log_entry list \<times> (string \<times> prop_type \<times> 'f prop_attrs) list
     \<Rightarrow> log_entry list \<times> (error + (string \<times> prop_type \<times> 'f prop_attrs) list)" where
  "annotate rt prefix [] (lg, annotations) = (lg, Inr annotations)"
| "annotate rt prefix (mx_param # rest) (lg, annotations) =
     (case create_property rt mx_param of
        (lg', Inl e) \<Rightarrow> (lg @ lg', Inl e)
      | (lg', Inr (prop_name, prop_type, prop_attrs)) \<Rightarrow>
          annotate rt prefix rest
            (lg @ lg', dict_set annotations (prefix @ prop_name) (prop_type, prop_attrs)))"

definition MxNodedef_new ::
  "'f runtime \<Rightarrow> mx_nodedef \<Rightarrow> log_entry list \<times> (error + 'f nodedef_type)" where
  "MxNodedef_new rt mx_nodedef =
     (case annotate rt ''p_'' (nd_parameters mx_nodedef) ([], []) of
        (lg1, Inl e) \<Rightarrow> (lg1, Inl e)
      | (lg1, Inr ann1) \<Rightarrow>
     (case annotate rt ''in_'' (nd_inputs mx_nodedef) (lg1, ann1) of
        (lg2, Inl e) \<Rightarrow> (lg2, Inl e)
      | (lg2, Inr ann2) \<Rightarrow>
     (case annotate rt ''out_'' (nd_outputs mx_nodedef) (lg2, ann2) of
        (lg3, Inl e) \<Rightarrow> (lg3, Inl e)
      | (lg3, Inr ann3) \<Rightarrow>
          (lg3, Inr \<lparr>ndt_class_name = ''Mx'' @ nd_name mx_nodedef,
                     ndt_mx_nodedef = mx_nodedef,
                     ndt_annotations = ann3\<rparr>))))"

subsection \<open>\<^verbatim>\<open>MxNode.new\<close> and \<^verbatim>\<open>create_node_types\<close>\<close>

datatype 'f annotation =
    PointerAnn "'f nodedef_type"
      \<comment> \<open>\<^verbatim>\<open>(PointerProperty, {'type': nd_type})\<close>\<close>
  | EnumAnn string string "(string \<times> string \<times> string) list" string
      \<comment> \<open>\<^verbatim>\<open>(EnumProperty, {'name', 'description', 'items', 'default'})\<close>\<close>

record 'f node_type =
  nt_class_name :: string
  bl_label :: string
  bl_idname :: string
  bl_description :: string
  nt_mx_nodedefs :: "mx_nodedef list"
  nt_annotations :: "(string \<times> 'f annotation) list"

text \<open>The entry of \<^verbatim>\<open>var_items\<close> made for one member of the group.\<close>

definition var_item :: "'f runtime \<Rightarrow> string \<Rightarrow> 'f nodedef_type \<Rightarrow> string \<times> string \<times> string" where
  "var_item rt node_name nd_type =
     (let nd_name = nd_name (ndt_mx_nodedef nd_type);
          var_name = drop (4 + length node_name) nd_name
      in (nd_name, title_str rt var_name, title_str rt var_name))"

definition MxNode_new :: "'f runtime \<Rightarrow> 'f nodedef_type list \<Rightarrow> error + 'f node_type" where
  "MxNode_new rt nodedef_types =
     (let mx_nodedefs = map ndt_mx_nodedef nodedef_types in
      case mx_nodedefs of
        [] \<Rightarrow> Inl IndexError
      | nd # _ \<Rightarrow>
          (let node_name = nd_node_string nd;
               annotations = foldl (\<lambda>ann nd_type.
                   dict_set ann (nd_name (ndt_mx_nodedef nd_type)) (PointerAnn nd_type))
                 [] nodedef_types;
               var_items = map (var_item rt node_name) nodedef_types
           in case var_items of
                [] \<Rightarrow> Inl IndexError
              | first # _ \<Rightarrow>
                  Inr \<lparr>nt_class_name = ''MxNode_'' @ node_name,
                       bl_label = title_str rt (nd_node_string nd),
                       bl_idname = ''hdusd.MxNode'' @ ''_'' @ nd_name nd,
                       bl_description =
                         (if hasAttribute (nd_attrs nd) ''doc'' then getAttribute (nd_attrs nd) ''doc''
                          else title_str rt (nd_name nd)),
                       nt_mx_nodedefs = mx_nodedefs,
                       nt_annotations = dict_set annotations ''data_type''
                         (EnumAnn ''Data Type'' ''Input Data Type'' var_items (fst first))\<rparr>))"

text \<open>
  The \<^verbatim>\<open>try\<close> of the loading loop: a definition whose class cannot be made is
  logged and skipped.
\<close>

definition load_nodedef ::
  "'f runtime \<Rightarrow> log_entry list \<times> 'f nodedef_type list \<Rightarrow> mx_nodedef
     \<Rightarrow> log_entry list \<times> 'f nodedef_type list" where
  "load_nodedef rt acc mx_node_def =
     (case acc of (lg, nodedef_types) \<Rightarrow>
       (case MxNodedef_new rt mx_node_def of
          (lg', Inl e) \<Rightarrow> (lg @ lg' @ [LogErrorNodedef (nd_name mx_node_def) e], nodedef_types)
        | (lg', Inr t) \<Rightarrow> (lg @ lg', nodedef_types @ [t])))"

text \<open>\<^verbatim>\<open>d[key].append(x)\<close> on a \<^verbatim>\<open>defaultdict(list)\<close>.\<close>

fun dd_append :: "('k \<times> 'a list) list \<Rightarrow> 'k \<Rightarrow> 'a \<Rightarrow> ('k \<times> 'a list) list" where
  "dd_append [] k x = [(k, [x])]"
| "dd_append ((k', xs) # kvs) k x =
     (if k' = k then (k', xs @ [x]) # kvs else (k', xs) # dd_append kvs k x)"

definition group_key :: "'f nodedef_type \<Rightarrow> string \<times> string" where
  \<comment> \<open>\<^verbatim>\<open>(nd.getNodeString(), nd.getAttribute('nodegroup'))\<close>\<close>
  "group_key nd_type =
     (nd_node_string (ndt_mx_nodedef nd_type),
      getAttribute (nd_attrs (ndt_mx_nodedef nd_type)) ''nodegroup'')"

definition group_nodedef_types ::
  "'f nodedef_type list \<Rightarrow> ((string \<times> string) \<times> 'f nodedef_type list) list" where
  "group_nodedef_types nodedef_types =
     foldl (\<lambda>d nd_type. dd_append d (group_key nd_type) nd_type) [] nodedef_types"

text \<open>\<^verbatim>\<open>for node_name, nd_types in d.items(): node_types.append(MxNode.new(nd_types))\<close>\<close>

fun new_node_types ::
  "'f runtime \<Rightarrow> ((string \<times> string) \<times> 'f nodedef_type list) list \<Rightarrow> error + 'f node_type list" where
  "new_node_types rt [] = Inr []"
| "new_node_types rt ((key, nd_types) # rest) =
     bind_err (MxNode_new rt nd_types) (\<lambda>t.
     bind_err (new_node_types rt rest) (\<lambda>ts. Inr (t # ts)))"

text \<open>
  \<^verbatim>\<open>create_node_types(file_paths)\<close>, on what \<^verbatim>\<open>doc.getNodeDefs()\<close> gives for each
  file that was read.
\<close>

definition create_node_types ::
  "'f runtime \<Rightarrow> mx_nodedef list list
     \<Rightarrow> log_entry list \<times> (error + ('f nodedef_type list \<times> 'f node_type list))" where
  "create_node_types rt files =
     (case foldl (load_nodedef rt) ([], []) (concat files) of
        (lg, nodedef_types) \<Rightarrow>
          (lg, bind_err (new_node_types rt (group_nodedef_types nodedef_types))
                 (\<lambda>node_types. Inr (nodedef_types, node_types))))"

subsection \<open>The node graph of the editor\<close>

text \<open>
  A link carries \<^verbatim>\<open>is_valid\<close>, \<^verbatim>\<open>from_node\<close> and \<^verbatim>\<open>from_socket.name\<close>; nodes are
  referred to by a number, and a graph gives the node of each number, so that a graph
  can share a node between consumers and can hold a cycle.
\<close>

record link =
  is_valid :: bool
  from_node :: nat
  from_socket :: string

record socket =
  sock_name :: string
  node_prop_name :: string
  links :: "link list"

datatype node_class = Foreign | MxNode | MxNode_Output

text \<open>\<^verbatim>\<open>self.prop\<close>: the node definition of the chosen data type and the values held.\<close>

record 'v prop_group =
  prop_nodedef :: mx_nodedef
  prop_values :: "(string \<times> 'v) list"

record 'v gnode =
  node_class :: node_class
  node_name :: string
  inputs :: "socket list"
  outputs :: "string list"
  node_prop :: "'v prop_group option"

type_synonym 'v graph = "nat \<Rightarrow> 'v gnode"

datatype in_key = Idx nat | Key string

text \<open>\<^verbatim>\<open>self.inputs[in_key]\<close>, by position or by socket name.\<close>

definition lookup_input :: "socket list \<Rightarrow> in_key \<Rightarrow> error + socket" where
  "lookup_input socks in_key =
     (case in_key of
        Idx i \<Rightarrow> if i < length socks then Inr (socks ! i) else Inl IndexError
      | Key k \<Rightarrow> (case find (\<lambda>s. sock_name s = k) socks of
                   None \<Rightarrow> Inl KeyError | Some s \<Rightarrow> Inr s))"

subsection \<open>The MaterialX document\<close>

text \<open>
  Modelled from the spec: the MaterialX library is not part of the repository. A
  document supports \<^verbatim>\<open>addNode(category, name, type)\<close>, a node
  \<^verbatim>\<open>addInput\<close>/\<^verbatim>\<open>addParameter(name, type)\<close>, and an input or parameter is bound by
  \<^verbatim>\<open>setNodeName\<close>, \<^verbatim>\<open>setValueString\<close> or \<^verbatim>\<open>setValue\<close>. The document is the list of the
  nodes added, in the order of the \<^verbatim>\<open>addNode\<close> calls; what the library does with a
  name that is already in use is outside the model.

  A node is changed only by the \<^verbatim>\<open>compute\<close> call that added it, before that call
  returns, and an exception ends the compilation. So the model adds a node to the
  document when its inputs and parameters are complete, and a compiled node is handed
  on by value: \<^verbatim>\<open>getName()\<close> and \<^verbatim>\<open>getType()\<close> read \<open>mx_name\<close> and \<open>mx_type\<close>.
\<close>

datatype 'v binding =
    NodeName string
  | ValueString 'v
  | TypedValue string 'v
      \<comment> \<open>\<^verbatim>\<open>setValue(mx_type(val))\<close>, with the name of the MaterialX class\<close>
  | Value 'v

record 'v mx_port =
  port_name :: string
  port_type :: string
  port_binding :: "'v binding"

record 'v mx_node =
  mx_category :: string
  mx_name :: string
  mx_type :: string
  mx_inputs :: "'v mx_port list"
  mx_parameters :: "'v mx_port list"

record 'v state =
  doc :: "'v mx_node list"
  logs :: "log_entry list"

definition log_write :: "log_entry \<Rightarrow> 'v state \<Rightarrow> 'v state" where
  "log_write e st = st\<lparr>logs := logs st @ [e]\<rparr>"

definition addNode :: "'v mx_node \<Rightarrow> 'v state \<Rightarrow> 'v state" where
  "addNode n st = st\<lparr>doc := doc st @ [n]\<rparr>"

subsection \<open>The graph compiler\<close>

text \<open>What \<^verbatim>\<open>get_input_value\<close> returns: a compiled node or the value held on the node.\<close>

datatype 'v input_value = NodeVal "'v mx_node" | Literal 'v

type_synonym 'v compiled = "error + ('v mx_node option \<times> 'v state)"

text \<open>The local function \<^verbatim>\<open>set_value\<close> of \<^verbatim>\<open>compute\<close>, as the binding it sets.\<close>

definition set_value :: "'f runtime \<Rightarrow> 'v input_value \<Rightarrow> string \<Rightarrow> 'v binding" where
  "set_value rt val nd_type =
     (case val of
        NodeVal n \<Rightarrow> NodeName (mx_name n)
      | Literal v \<Rightarrow>
          if nd_type = ''filename'' then ValueString v
          else if mx_has_type rt (title_str rt nd_type) then TypedValue (title_str rt nd_type) v
          else Value v)"

text \<open>
  The methods below call \<^verbatim>\<open>compute\<close> of another node through \<^verbatim>\<open>_compute_node\<close>;
  \<open>rec\<close> stands for that call, and \<open>compute\<close> at the end ties the knot.
\<close>

definition compute_node ::
  "(nat \<Rightarrow> string \<Rightarrow> 'v state \<Rightarrow> 'v compiled) \<Rightarrow> 'v graph \<Rightarrow> nat \<Rightarrow> string \<Rightarrow> 'v state
     \<Rightarrow> 'v compiled" where
  \<comment> \<open>\<^verbatim>\<open>MxNode._compute_node\<close>\<close>
  "compute_node rec g node out_key st =
     (if node_class (g node) = Foreign then Inr (None, log_write (LogWarnUnsupportedNode node) st)
      else rec node out_key st)"

definition get_input_link ::
  "(nat \<Rightarrow> string \<Rightarrow> 'v state \<Rightarrow> 'v compiled) \<Rightarrow> 'v graph \<Rightarrow> nat \<Rightarrow> in_key \<Rightarrow> 'v state
     \<Rightarrow> 'v compiled" where
  "get_input_link rec g self in_key st =
     (case lookup_input (inputs (g self)) in_key of
        Inl e \<Rightarrow> Inl e
      | Inr socket_in \<Rightarrow>
          (case links socket_in of
             [] \<Rightarrow> Inr (None, st)
           | link # _ \<Rightarrow>
               compute_node rec g (from_node link) (from_socket link)
                 (if \<not> is_valid link
                  then log_write (LogErrorInvalidLink (from_node link) (from_socket link)
                                    (sock_name socket_in) self) st
                  else st)))"

definition get_input_default :: "'v graph \<Rightarrow> nat \<Rightarrow> in_key \<Rightarrow> error + 'v" where
  "get_input_default g self in_key =
     (case lookup_input (inputs (g self)) in_key of
        Inl e \<Rightarrow> Inl e
      | Inr s \<Rightarrow>
          (case node_prop (g self) of
             None \<Rightarrow> Inl AttributeError
           | Some pr \<Rightarrow>
               (case map_of (prop_values pr) (node_prop_name s) of
                  None \<Rightarrow> Inl AttributeError
                | Some v \<Rightarrow> Inr v)))"

definition get_input_value ::
  "(nat \<Rightarrow> string \<Rightarrow> 'v state \<Rightarrow> 'v compiled) \<Rightarrow> 'v graph \<Rightarrow> nat \<Rightarrow> in_key \<Rightarrow> 'v state
     \<Rightarrow> error + ('v input_value \<times> 'v state)" where
  "get_input_value rec g self in_key st =
     (case get_input_link rec g self in_key st of
        Inl e \<Rightarrow> Inl e
      | Inr (Some node, st') \<Rightarrow> Inr (NodeVal node, st')
      | Inr (None, st') \<Rightarrow>
          (case get_input_default g self in_key of
             Inl e \<Rightarrow> Inl e
           | Inr v \<Rightarrow> Inr (Literal v, st')))"

definition get_param_value :: "'v prop_group \<Rightarrow> string \<Rightarrow> error + 'v" where
  "get_param_value pr name =
     (case map_of (prop_values pr) (''p_'' @ name) of
        None \<Rightarrow> Inl AttributeError
      | Some v \<Rightarrow> Inr v)"

text \<open>\<^verbatim>\<open>getInput(name)\<close> and \<^verbatim>\<open>getOutput(name)\<close> give \<^verbatim>\<open>None\<close> for a name not declared.\<close>

definition get_nodedef_input :: "'v gnode \<Rightarrow> in_key \<Rightarrow> error + mx_param option" where
  "get_nodedef_input n in_key =
     (case node_prop n of
        None \<Rightarrow> Inl AttributeError
      | Some pr \<Rightarrow>
          (case lookup_input (inputs n) in_key of
             Inl e \<Rightarrow> Inl e
           | Inr s \<Rightarrow>
               Inr (find (\<lambda>p. p_name p = drop 3 (node_prop_name s)) (nd_inputs (prop_nodedef pr)))))"

definition get_nodedef_output :: "'f runtime \<Rightarrow> 'v gnode \<Rightarrow> string \<Rightarrow> error + mx_param option" where
  "get_nodedef_output rt n out_key =
     (case node_prop n of
        None \<Rightarrow> Inl AttributeError
      | Some pr \<Rightarrow>
          (case find (\<lambda>s. s = out_key) (outputs n) of
             None \<Rightarrow> Inl KeyError
           | Some s \<Rightarrow>
               Inr (find (\<lambda>p. p_name p = code_str rt s) (nd_outputs (prop_nodedef pr)))))"

text \<open>\<^verbatim>\<open>for in_key in range(len(self.inputs)): values.append(self.get_input_value(in_key))\<close>\<close>

fun input_values ::
  "(nat \<Rightarrow> string \<Rightarrow> 'v state \<Rightarrow> 'v compiled) \<Rightarrow> 'v graph \<Rightarrow> nat \<Rightarrow> nat list \<Rightarrow> 'v state
     \<Rightarrow> error + ('v input_value list \<times> 'v state)" where
  "input_values rec g self [] st = Inr ([], st)"
| "input_values rec g self (in_key # rest) st =
     (case get_input_value rec g self (Idx in_key) st of
        Inl e \<Rightarrow> Inl e
      | Inr (v, st') \<Rightarrow>
          (case input_values rec g self rest st' of
             Inl e \<Rightarrow> Inl e
           | Inr (vs, st'') \<Rightarrow> Inr (v # vs, st'')))"

text \<open>
  \<^verbatim>\<open>for in_key, val in enumerate(values)\<close>: the inputs added to the new node.
\<close>

fun add_inputs ::
  "'f runtime \<Rightarrow> 'v gnode \<Rightarrow> (nat \<times> 'v input_value) list \<Rightarrow> error + 'v mx_port list" where
  "add_inputs rt n [] = Inr []"
| "add_inputs rt n ((in_key, val) # rest) =
     (case get_nodedef_input n (Idx in_key) of
        Inl e \<Rightarrow> Inl e
      | Inr None \<Rightarrow> Inl AttributeError
      | Inr (Some nd_input) \<Rightarrow>
          (case add_inputs rt n rest of
             Inl e \<Rightarrow> Inl e
           | Inr ports \<Rightarrow>
               Inr (\<lparr>port_name = p_name nd_input, port_type = p_type nd_input,
                     port_binding = set_value rt val (p_type nd_input)\<rparr> # ports)))"

text \<open>\<^verbatim>\<open>for nd_param in nodedef.getParameters()\<close>: the parameters added to the new node.\<close>

fun add_parameters ::
  "'f runtime \<Rightarrow> 'v prop_group \<Rightarrow> mx_param list \<Rightarrow> error + 'v mx_port list" where
  "add_parameters rt pr [] = Inr []"
| "add_parameters rt pr (nd_param # rest) =
     (case get_param_value pr (p_name nd_param) of
        Inl e \<Rightarrow> Inl e
      | Inr v \<Rightarrow>
          (case add_parameters rt pr rest of
             Inl e \<Rightarrow> Inl e
           | Inr ports \<Rightarrow>
               Inr (\<lparr>port_name = p_name nd_param, port_type = p_type nd_param,
                     port_binding = set_value rt (Literal v) (p_type nd_param)\<rparr> # ports)))"

definition MxNode_compute ::
  "(nat \<Rightarrow> string \<Rightarrow> 'v state \<Rightarrow> 'v compiled) \<Rightarrow> 'f runtime \<Rightarrow> 'v graph \<Rightarrow> nat \<Rightarrow> string
     \<Rightarrow> 'v state \<Rightarrow> 'v compiled" where
  "MxNode_compute rec rt g self out_key st =
     (let st0 = log_write (LogCompute self (Some out_key)) st in
      case node_prop (g self) of
        None \<Rightarrow> Inl AttributeError
      | Some pr \<Rightarrow>
     (let nodedef = prop_nodedef pr in
      case get_nodedef_output rt (g self) out_key of
        Inl e \<Rightarrow> Inl e
      | Inr nd_output \<Rightarrow>
     (case input_values rec g self [0..<length (inputs (g self))] st0 of
        Inl e \<Rightarrow> Inl e
      | Inr (values, st1) \<Rightarrow>
     (case nd_output of
        None \<Rightarrow> Inl AttributeError
      | Some out \<Rightarrow>
     (case add_inputs rt (g self) (zip [0..<length values] values) of
        Inl e \<Rightarrow> Inl e
      | Inr ins \<Rightarrow>
     (case add_parameters rt pr (nd_parameters nodedef) of
        Inl e \<Rightarrow> Inl e
      | Inr params \<Rightarrow>
          (let node = \<lparr>mx_category = nd_node_string nodedef,
                       mx_name = code_str rt (node_name (g self)),
                       mx_type = p_type out,
                       mx_inputs = ins, mx_parameters = params\<rparr>
           in Inr (Some node, addNode node st1))))))))"

definition MxNode_Output_compute ::
  "(nat \<Rightarrow> string \<Rightarrow> 'v state \<Rightarrow> 'v compiled) \<Rightarrow> 'v graph \<Rightarrow> nat \<Rightarrow> string \<Rightarrow> 'v state
     \<Rightarrow> 'v compiled" where
  "MxNode_Output_compute rec g self out_key st =
     (let st0 = log_write (LogCompute self None) st in
      case get_input_link rec g self (Key ''Surface'') st0 of
        Inl e \<Rightarrow> Inl e
      | Inr (None, st1) \<Rightarrow> Inr (None, st1)
      | Inr (Some node, st1) \<Rightarrow>
          if mx_type node = ''surfaceshader'' then Inr (Some node, st1)
          else
            (let surface = \<lparr>mx_category = ''surface'', mx_name = ''surface'',
                            mx_type = ''surfaceshader'',
                            mx_inputs = [\<lparr>port_name = ''bsdf'', port_type = mx_type node,
                                          port_binding = NodeName (mx_name node)\<rparr>],
                            mx_parameters = []\<rparr>
             in Inr (Some surface, addNode surface st1)))"

text \<open>
  \<^verbatim>\<open>node.compute(out_key, **kwargs)\<close>, dispatched on the class of the node. Python
  bounds the depth of the recursion and raises RecursionError beyond it; the first
  argument is the depth still allowed.
\<close>

primrec compute ::
  "nat \<Rightarrow> 'f runtime \<Rightarrow> 'v graph \<Rightarrow> nat \<Rightarrow> string \<Rightarrow> 'v state \<Rightarrow> 'v compiled" where
  "compute 0 = (\<lambda>rt g self out_key st. Inl RecursionError)"
| "compute (Suc depth) = (\<lambda>rt g self out_key st.
     (case node_class (g self) of
        Foreign \<Rightarrow> Inl AttributeError
      | MxNode \<Rightarrow> MxNode_compute (compute depth rt g) rt g self out_key st
      | MxNode_Output \<Rightarrow> MxNode_Output_compute (compute depth rt g) g self out_key st))"

subsection \<open>Notions used to state the properties\<close>

text \<open>\<open>ts\<close> are the comma-separated tokens of \<open>s\<close>.\<close>

definition comma_tokens :: "string \<Rightarrow> string list \<Rightarrow> bool" where
  "comma_tokens s ts =
     (ts \<noteq> [] \<and> join_commas ts = s \<and> list_all (\<lambda>t. CHR '','' \<notin> set t) ts)"

text \<open>\<open>u\<close> is \<open>t\<close> without the whitespace around it.\<close>

definition trimmed :: "string \<Rightarrow> string \<Rightarrow> bool" where
  "trimmed t u =
     ((\<exists>a b. t = a @ u @ b \<and> list_all isspace a \<and> list_all isspace b)
      \<and> (u = [] \<or> (\<not> isspace (hd u) \<and> \<not> isspace (last u))))"

text \<open>
  A runtime to evaluate the definitions on: a float is kept as its text, and the two
  string helpers leave a string as it is.
\<close>

definition sample_runtime :: "string runtime" where
  "sample_runtime =
     \<lparr>title_str = (\<lambda>s. s), code_str = (\<lambda>s. s),
      py_int = (\<lambda>s. if s \<noteq> [] \<and> list_all is_digit s
                     then Some (int (foldl (\<lambda>n c. 10 * n + digit_val c) 0 s)) else None),
      py_float = (\<lambda>s. if s \<noteq> [] \<and> list_all (\<lambda>c. is_digit c \<or> c = CHR ''.'') s
                       then Some s else None),
      mx_has_type = (\<lambda>s. False)\<rparr>"

text \<open>The string reads as comma-separated floats.\<close>

definition floats_readable :: "'f runtime \<Rightarrow> string \<Rightarrow> bool" where
  "floats_readable rt s = (those (map (py_float rt) (split_str s)) \<noteq> None)"

text \<open>
  The attributes \<^verbatim>\<open>create_property\<close> parses with the property type, for a float
  vector: each one that is present reads as floats.
\<close>

definition float_bounds_readable :: "'f runtime \<Rightarrow> mx_param \<Rightarrow> bool" where
  "float_bounds_readable rt p =
     list_all (\<lambda>a. hasAttribute (p_attrs p) a \<longrightarrow> floats_readable rt (getAttribute (p_attrs p) a))
       [''uimin'', ''uimax'', ''uisoftmin'', ''uisoftmax'', ''value'']"

text \<open>
  What \<^verbatim>\<open>create_property\<close> gives for a float-vector type: it raises ValueError
  when a bound or the default does not read as floats, and otherwise returns a
  float-vector property of the given subtype and size.
\<close>

definition float_vector_result ::
  "'f runtime \<Rightarrow> mx_param \<Rightarrow> error + (string \<times> prop_type \<times> 'f prop_attrs) \<Rightarrow> string \<Rightarrow> nat \<Rightarrow> bool" where
  "float_vector_result rt p res subtype n =
     (case res of
        Inl e \<Rightarrow> e = ValueError \<and> \<not> float_bounds_readable rt p
      | Inr (nm, pt, attrs) \<Rightarrow>
          float_bounds_readable rt p \<and> nm = p_name p \<and> pt = FloatVectorProperty
          \<and> map_of attrs ''subtype'' = Some (AStr subtype)
          \<and> map_of attrs ''size'' = Some (ANat n))"

text \<open>The type strings for which \<^verbatim>\<open>create_property\<close> has a rule.\<close>

definition recognized_type :: "string \<Rightarrow> bool" where
  "recognized_type ty =
     (ty \<in> {''string'', ''filename'', ''integer'', ''float'', ''boolean''}
      \<or> ty \<in> set shader_types
      \<or> (\<exists>r c. is_digit r \<and> is_digit c \<and> ty = ''matrix'' @ [r, c])
      \<or> (\<exists>n. is_digit n \<and> ty = ''color'' @ [n])
      \<or> (\<exists>n. is_digit n \<and> ty = ''vector'' @ [n])
      \<or> (\<exists>x. x \<noteq> [] \<and> CHR 0x0A \<notin> set x \<and> ty = x @ ''array''))"

text \<open>A parameter to evaluate \<^verbatim>\<open>create_property\<close> on.\<close>

definition sample_param :: "string \<Rightarrow> mx_param" where
  "sample_param ty =
     \<lparr>p_name = ''in1'', p_type = ty,
      p_attrs = [(''uimin'', ''0''), (''value'', ''0.5,1'')], p_parent = ''ND_sample''\<rparr>"

text \<open>The list a \<^verbatim>\<open>defaultdict(list)\<close> holds for a key.\<close>

definition group_members :: "('k \<times> 'a list) list \<Rightarrow> 'k \<Rightarrow> 'a list" where
  "group_members d k = (case map_of d k of None \<Rightarrow> [] | Some ys \<Rightarrow> ys)"

text \<open>The identifiers of the \<^verbatim>\<open>data_type\<close> selector of a node type, and its default.\<close>

definition variant_ids :: "'f node_type \<Rightarrow> string list" where
  "variant_ids t =
     (case map_of (nt_annotations t) ''data_type'' of
        Some (EnumAnn name description var_items dflt) \<Rightarrow> map fst var_items
      | _ \<Rightarrow> [])"

definition variant_default :: "'f node_type \<Rightarrow> string option" where
  "variant_default t =
     (case map_of (nt_annotations t) ''data_type'' of
        Some (EnumAnn name description var_items dflt) \<Rightarrow> Some dflt
      | _ \<Rightarrow> None)"

text \<open>\<open>t\<close> is the node type of the group \<open>members\<close>: it holds their node definitions, its
  selector lists their names in the order of the group, and the default is the first.\<close>

definition variant_type :: "'f nodedef_type list \<Rightarrow> 'f node_type \<Rightarrow> bool" where
  "variant_type members t =
     (members \<noteq> []
      \<and> nt_mx_nodedefs t = map ndt_mx_nodedef members
      \<and> variant_ids t = map (\<lambda>m. nd_name (ndt_mx_nodedef m)) members
      \<and> variant_default t = Some (nd_name (ndt_mx_nodedef (hd members))))"

text \<open>\<^verbatim>\<open>MxNodedef.new\<close> makes a class for the node definition (it does not raise).\<close>

definition nodedef_loads :: "'f runtime \<Rightarrow> mx_nodedef \<Rightarrow> bool" where
  "nodedef_loads rt nd = (\<not> isl (snd (MxNodedef_new rt nd)))"

text \<open>Node definitions to evaluate \<^verbatim>\<open>create_node_types\<close> on: two files, and a
  definition whose default is not an integer.\<close>

definition sample_nodedef :: "string \<Rightarrow> string \<Rightarrow> string \<Rightarrow> string \<Rightarrow> mx_nodedef" where
  "sample_nodedef name node ty val =
     \<lparr>nd_name = name, nd_node_string = node, nd_attrs = [(''nodegroup'', ''math'')],
      nd_parameters = [],
      nd_inputs = [\<lparr>p_name = ''in1'', p_type = ty, p_attrs = [(''value'', val)], p_parent = name\<rparr>],
      nd_outputs = [\<lparr>p_name = ''out'', p_type = ty, p_attrs = [], p_parent = name\<rparr>]\<rparr>"

definition sample_files :: "mx_nodedef list list" where
  "sample_files =
     [[sample_nodedef ''ND_add_float'' ''add'' ''float'' ''0.5'',
       sample_nodedef ''ND_add_color3'' ''add'' ''color3'' ''0.5,0.5,1''],
      [sample_nodedef ''ND_mix_float'' ''mix'' ''float'' ''1'',
       sample_nodedef ''ND_add_integer'' ''add'' ''integer'' ''one'']]"

text \<open>Two files that hold a node definition of the same name.\<close>

definition duplicate_files :: "mx_nodedef list list" where
  "duplicate_files =
     [[sample_nodedef ''ND_add_float'' ''add'' ''float'' ''0.5''],
      [sample_nodedef ''ND_add_float'' ''add'' ''float'' ''0.5'']]"

text \<open>The names of other nodes that the inputs and parameters of a document node are bound to.\<close>

definition binding_ref :: "'v binding \<Rightarrow> string option" where
  "binding_ref b = (case b of NodeName n \<Rightarrow> Some n | _ \<Rightarrow> None)"

definition node_refs :: "'v mx_node \<Rightarrow> string list" where
  "node_refs n = List.map_filter (\<lambda>p. binding_ref (port_binding p)) (mx_inputs n @ mx_parameters n)"

text \<open>Every node that a document node refers to by name stands strictly before it in the
  document.\<close>

definition topological :: "'v mx_node list \<Rightarrow> bool" where
  "topological d =
     (\<forall>i < length d. \<forall>r \<in> set (node_refs (d ! i)). \<exists>j < i. mx_name (d ! j) = r)"

text \<open>A graph to evaluate the compiler on. Node 0 is the material output, fed by the mix
  node 6, both inputs of which are linked to the constant node 2. The mix node 4 has one
  input linked to a node of another kind (3) and one linked to node 2 by a link that is
  not valid. Node 5 is a material output with nothing linked.\<close>

definition color_port :: "string \<Rightarrow> mx_param" where
  "color_port name = \<lparr>p_name = name, p_type = ''color3'', p_attrs = [], p_parent = ''ND''\<rparr>"

definition mix_nodedef :: mx_nodedef where
  "mix_nodedef =
     \<lparr>nd_name = ''ND_mix_color3'', nd_node_string = ''mix'', nd_attrs = [],
      nd_parameters = [\<lparr>p_name = ''amount'', p_type = ''float'', p_attrs = [], p_parent = ''ND''\<rparr>],
      nd_inputs = [color_port ''fg'', color_port ''bg''],
      nd_outputs = [color_port ''out'']\<rparr>"

definition constant_nodedef :: mx_nodedef where
  "constant_nodedef =
     \<lparr>nd_name = ''ND_constant_color3'', nd_node_string = ''constant'', nd_attrs = [],
      nd_parameters = [],
      nd_inputs = [color_port ''value''],
      nd_outputs = [color_port ''out'']\<rparr>"

definition mix_node :: "string \<Rightarrow> link list \<Rightarrow> link list \<Rightarrow> string gnode" where
  "mix_node name fg bg =
     \<lparr>node_class = MxNode, node_name = name,
      inputs = [\<lparr>sock_name = ''Fg'', node_prop_name = ''in_fg'', links = fg\<rparr>,
                \<lparr>sock_name = ''Bg'', node_prop_name = ''in_bg'', links = bg\<rparr>],
      outputs = [''out''],
      node_prop = Some \<lparr>prop_nodedef = mix_nodedef,
                        prop_values = [(''in_fg'', ''0,0,0''), (''in_bg'', ''0,0,0''),
                                       (''p_amount'', ''0.7'')]\<rparr>\<rparr>"

definition shader_socket :: "string \<Rightarrow> link list \<Rightarrow> socket" where
  "shader_socket name ls = \<lparr>sock_name = name, node_prop_name = [], links = ls\<rparr>"

definition sample_graph :: "string graph" where
  "sample_graph i =
     (if i = 0 then
        \<lparr>node_class = MxNode_Output, node_name = ''Material Output'',
         inputs = [shader_socket ''Surface'' [\<lparr>is_valid = True, from_node = 6, from_socket = ''out''\<rparr>],
                   shader_socket ''Volume'' [], shader_socket ''Displacement'' []],
         outputs = [], node_prop = None\<rparr>
      else if i = 6 then
        mix_node ''M'' [\<lparr>is_valid = True, from_node = 2, from_socket = ''out''\<rparr>]
                       [\<lparr>is_valid = True, from_node = 2, from_socket = ''out''\<rparr>]
      else if i = 2 then
        \<lparr>node_class = MxNode, node_name = ''K'',
         inputs = [\<lparr>sock_name = ''Value'', node_prop_name = ''in_value'', links = []\<rparr>],
         outputs = [''out''],
         node_prop = Some \<lparr>prop_nodedef = constant_nodedef, prop_values = [(''in_value'', ''1,0,0'')]\<rparr>\<rparr>
      else if i = 4 then
        mix_node ''N'' [\<lparr>is_valid = True, from_node = 3, from_socket = ''Color''\<rparr>]
                       [\<lparr>is_valid = False, from_node = 2, from_socket = ''out''\<rparr>]
      else if i = 5 then
        \<lparr>node_class = MxNode_Output, node_name = ''Material Output.001'',
         inputs = [shader_socket ''Surface'' [], shader_socket ''Volume'' [],
                   shader_socket ''Displacement'' []],
         outputs = [], node_prop = None\<rparr>
      else
        \<lparr>node_class = Foreign, node_name = ''Image Texture'', inputs = [], outputs = [''Color''],
         node_prop = None\<rparr>)"

text \<open>The state at the start of a compilation: an empty document, nothing logged.\<close>

definition empty_state :: "string state" where
  "empty_state = \<lparr>doc = [], logs = []\<rparr>"

text \<open>The document of \<open>st'\<close> is that of \<open>st\<close> with nodes appended, and it is in topological order
  when that of \<open>st\<close> is.\<close>

definition extends :: "'v state \<Rightarrow> 'v state \<Rightarrow> bool" where
  "extends st st' =
     ((\<exists>new. doc st' = doc st @ new) \<and> (topological (doc st) \<longrightarrow> topological (doc st')))"

text \<open>What a call of \<^verbatim>\<open>compute\<close> that returns guarantees: the document is extended in
  order, and a node returned has its name in the document.\<close>

definition sound_rec :: "(nat \<Rightarrow> string \<Rightarrow> 'v state \<Rightarrow> 'v compiled) \<Rightarrow> bool" where
  "sound_rec rec =
     (\<forall>node k st r st'. rec node k st = Inr (r, st') \<longrightarrow>
        extends st st' \<and> (\<forall>n. r = Some n \<longrightarrow> mx_name n \<in> mx_name ` set (doc st')))"

text \<open>The node names that the ports of a list are bound to.\<close>

definition port_refs :: "'v mx_port list \<Rightarrow> string list" where
  "port_refs ports = List.map_filter (\<lambda>p. binding_ref (port_binding p)) ports"

text \<open>The document nodes the graph compiles to.\<close>

definition K_node :: "string mx_node" where
  "K_node = \<lparr>mx_category = ''constant'', mx_name = ''K'', mx_type = ''color3'',
             mx_inputs = [\<lparr>port_name = ''value'', port_type = ''color3'',
                           port_binding = Value ''1,0,0''\<rparr>],
             mx_parameters = []\<rparr>"

definition M_node :: "string mx_node" where
  "M_node = \<lparr>mx_category = ''mix'', mx_name = ''M'', mx_type = ''color3'',
             mx_inputs = [\<lparr>port_name = ''fg'', port_type = ''color3'',
                           port_binding = NodeName ''K''\<rparr>,
                          \<lparr>port_name = ''bg'', port_type = ''color3'',
                           port_binding = NodeName ''K''\<rparr>],
             mx_parameters = [\<lparr>port_name = ''amount'', port_type = ''float'',
                               port_binding = Value ''0.7''\<rparr>]\<rparr>"


definition surface_node :: "string mx_node" where
  "surface_node = \<lparr>mx_category = ''surface'', mx_name = ''surface'', mx_type = ''surfaceshader'',
             mx_inputs = [\<lparr>port_name = ''bsdf'', port_type = ''color3'',
                           port_binding = NodeName ''M''\<rparr>],
             mx_parameters = []\<rparr>"

section \<open>Properties\<close>

subsection \<open>Splitting and stripping\<close>

lemma split_str_nonempty: "split_str s \<noteq> []"
  by (induction s) (auto split: list.splits)

lemma join_commas_Cons: "ts \<noteq> [] \<Longrightarrow> join_commas (t # ts) = t @ CHR '','' # join_commas ts"
  by (cases ts) auto

lemma join_split_str: "join_commas (split_str s) = s"
proof (induction s)
  case Nil
  then show ?case by simp
next
  case (Cons c cs)
  show ?case
  proof (cases "c = CHR '',''")
    case True
    then show ?thesis using Cons split_str_nonempty[of cs] by (simp add: join_commas_Cons)
  next
    case False
    obtain t ts where ts: "split_str cs = t # ts"
      using split_str_nonempty[of cs] by (cases "split_str cs") auto
    show ?thesis using False Cons ts by (cases ts) auto
  qed
qed

lemma split_str_no_comma: "t \<in> set (split_str s) \<Longrightarrow> CHR '','' \<notin> set t"
  by (induction s arbitrary: t) (auto split: if_splits list.splits)

lemma split_str_token: "CHR '','' \<notin> set t \<Longrightarrow> split_str t = [t]"
  by (induction t) auto

lemma split_str_append:
  "CHR '','' \<notin> set t \<Longrightarrow> split_str (t @ CHR '','' # s) = t # split_str s"
  by (induction t) auto

lemma split_join_commas:
  "ts \<noteq> [] \<Longrightarrow> list_all (\<lambda>t. CHR '','' \<notin> set t) ts \<Longrightarrow> split_str (join_commas ts) = ts"
proof (induction ts rule: join_commas.induct)
  case 1
  then show ?case by simp
next
  case (2 t)
  then show ?case by (simp add: split_str_token)
next
  case (3 t u ts)
  then show ?case by (simp add: split_str_append)
qed

lemma comma_tokens_split_str: "comma_tokens s (split_str s)"
  by (simp add: comma_tokens_def split_str_nonempty join_split_str list_all_iff
        split_str_no_comma)

text \<open>The tokens of a string are those \<open>split_str\<close> returns, and no others.\<close>

lemma comma_tokens_unique: "comma_tokens s ts \<Longrightarrow> ts = split_str s"
  using split_join_commas[of ts] by (auto simp: comma_tokens_def)

lemma those_length: "those xs = Some ys \<Longrightarrow> length ys = length xs"
  by (induction xs arbitrary: ys) (auto split: option.splits)

lemma strip_decomp:
  "\<exists>a b. s = a @ strip s @ b \<and> list_all isspace a \<and> list_all isspace b"
proof -
  let ?a = "takeWhile isspace s"
  let ?m = "dropWhile isspace s"
  let ?b = "rev (takeWhile isspace (rev ?m))"
  have "?m = strip s @ ?b"
    unfolding strip_def by (metis rev_append rev_rev_ident takeWhile_dropWhile_id)
  then have "s = ?a @ strip s @ ?b" by (metis takeWhile_dropWhile_id)
  moreover have "list_all isspace ?a" by (simp add: list_all_iff) (meson set_takeWhileD)
  moreover have "list_all isspace ?b" by (simp add: list_all_iff) (meson set_takeWhileD)
  ultimately show ?thesis by blast
qed

lemma strip_ends: "strip s = [] \<or> (\<not> isspace (hd (strip s)) \<and> \<not> isspace (last (strip s)))"
proof (cases "strip s = []")
  case True
  then show ?thesis by simp
next
  case False
  let ?m = "dropWhile isspace s"
  let ?r = "dropWhile isspace (rev ?m)"
  have r: "?r \<noteq> []" using False by (simp add: strip_def)
  then have h: "\<not> isspace (hd ?r)" by (rule hd_dropWhile)
  have l: "last (strip s) = hd ?r" using r by (simp add: strip_def last_rev)
  have m: "?m \<noteq> []" using r by (auto dest: set_dropWhileD)
  have "hd (strip s) = last ?r" using r by (simp add: strip_def hd_rev)
  also have "\<dots> = last (rev ?m)" using r
    by (metis append_is_Nil_conv last_appendR takeWhile_dropWhile_id)
  also have "\<dots> = hd ?m" using m by (simp add: last_rev)
  finally have "hd (strip s) = hd ?m" .
  moreover have "\<not> isspace (hd ?m)" using m by (rule hd_dropWhile)
  ultimately show ?thesis using h l by simp
qed

lemma trimmed_strip: "trimmed t (strip t)"
  unfolding trimmed_def using strip_decomp[of t] strip_ends[of t] by blast

lemma trimmed_map_strip: "list_all2 trimmed ts (map strip ts)"
  by (induction ts) (auto simp: trimmed_strip)

subsection \<open>\<^verbatim>\<open>parse_val\<close>\<close>

text \<open>
  C8. \<^verbatim>\<open>parse_val\<close> on any string \<open>val\<close> with comma-separated tokens \<open>ts\<close>: for a boolean
  property the result is true for the string \<^verbatim>\<open>true\<close> and false for any other string;
  for a float-vector property the tokens are read as floats, ValueError is raised when one
  of them is not a float, the result is otherwise the tuple of the floats, and with
  \<open>first_only\<close> its first element; for an enum property the result is the tuple of the
  tokens with the whitespace around each removed, and with \<open>first_only\<close> the first of them.
\<close>

theorem parse_val_rules:
  assumes "comma_tokens val ts"
  shows "parse_val rt BoolProperty val first_only = Inr (PBool (val = ''true''))
     \<and> (case those (map (py_float rt) ts) of
          None \<Rightarrow> parse_val rt FloatVectorProperty val first_only = Inl ValueError
        | Some xs \<Rightarrow> xs \<noteq> [] \<and> length xs = length ts
            \<and> parse_val rt FloatVectorProperty val False = Inr (PFloats xs)
            \<and> parse_val rt FloatVectorProperty val True = Inr (PFloat (hd xs)))
     \<and> (\<exists>us. list_all2 trimmed ts us \<and> us \<noteq> []
          \<and> parse_val rt EnumProperty val False = Inr (PStrs us)
          \<and> parse_val rt EnumProperty val True = Inr (PStr (hd us)))"
proof (intro conjI)
  have ts: "ts = split_str val" using assms by (rule comma_tokens_unique)
  show "parse_val rt BoolProperty val first_only = Inr (PBool (val = ''true''))"
    by (simp add: parse_val_def)
  show "case those (map (py_float rt) ts) of
          None \<Rightarrow> parse_val rt FloatVectorProperty val first_only = Inl ValueError
        | Some xs \<Rightarrow> xs \<noteq> [] \<and> length xs = length ts
            \<and> parse_val rt FloatVectorProperty val False = Inr (PFloats xs)
            \<and> parse_val rt FloatVectorProperty val True = Inr (PFloat (hd xs))"
  proof (cases "those (map (py_float rt) ts)")
    case None
    then show ?thesis by (simp add: parse_val_def ts)
  next
    case (Some xs)
    then have len: "length xs = length ts" using those_length by fastforce
    then have "xs \<noteq> []" using split_str_nonempty[of val] ts by auto
    then show ?thesis using Some len by (cases xs) (simp_all add: parse_val_def ts)
  qed
  let ?us = "map strip ts"
  have ne: "?us \<noteq> []" using split_str_nonempty[of val] ts by simp
  have "parse_val rt EnumProperty val False = Inr (PStrs ?us)"
    by (simp add: parse_val_def ts)
  moreover have "parse_val rt EnumProperty val True = Inr (PStr (hd ?us))"
    using ne by (cases ?us) (simp_all add: parse_val_def Let_def ts)
  ultimately show "\<exists>us. list_all2 trimmed ts us \<and> us \<noteq> []
          \<and> parse_val rt EnumProperty val False = Inr (PStrs us)
          \<and> parse_val rt EnumProperty val True = Inr (PStr (hd us))"
    using ne trimmed_map_strip by blast
qed

theorem parse_val_rules_witness:
  "comma_tokens ''0.5,1'' [''0.5'', ''1'']
   \<and> parse_val sample_runtime BoolProperty ''0.5,1'' True = Inr (PBool False)
   \<and> parse_val sample_runtime FloatVectorProperty ''0.5,1'' False = Inr (PFloats [''0.5'', ''1''])
   \<and> parse_val sample_runtime FloatVectorProperty ''0.5,1'' True = Inr (PFloat ''0.5'')
   \<and> (\<exists>us. list_all2 trimmed [''0.5'', ''1''] us \<and> us \<noteq> []
        \<and> parse_val sample_runtime EnumProperty ''0.5,1'' False = Inr (PStrs us)
        \<and> parse_val sample_runtime EnumProperty ''0.5,1'' True = Inr (PStr (hd us)))"
proof -
  have h: "comma_tokens ''0.5,1'' [''0.5'', ''1'']"
    by (simp add: comma_tokens_def)
  have f: "those (map (py_float sample_runtime) [''0.5'', ''1'']) = Some [''0.5'', ''1'']"
    by (simp add: sample_runtime_def is_digit_def)
  show ?thesis
    using h parse_val_rules[OF h, of sample_runtime True] unfolding f by simp
qed

subsection \<open>\<^verbatim>\<open>create_property\<close>\<close>

lemma map_of_dict_set: "map_of (dict_set d k v) k' = (if k' = k then Some v else map_of d k')"
  by (induction d) auto

lemma drop2: "length xs = Suc (Suc n) \<Longrightarrow> drop n xs = [xs ! n, xs ! Suc n]"
  by (metis Cons_nth_drop_Suc drop_all lessI less_Suc_eq order_refl)

lemma drop1: "length xs = Suc n \<Longrightarrow> drop n xs = [xs ! n]"
  by (metis Cons_nth_drop_Suc drop_all lessI order_refl)

lemma match_matrix_iff:
  "match_matrix ty = Some (r, c) \<longleftrightarrow> is_digit r \<and> is_digit c \<and> ty = ''matrix'' @ [r, c]"
proof
  assume "match_matrix ty = Some (r, c)"
  then have l: "length ty = 8" and t: "take 6 ty = ''matrix''" and d: "is_digit r" "is_digit c"
    and rc: "r = ty ! 6" "c = ty ! 7"
    by (auto simp: match_matrix_def split: if_splits)
  have "drop 6 ty = [r, c]" using drop2[of ty 6] l rc by simp
  then have "ty = ''matrix'' @ [r, c]" using t by (metis append_take_drop_id)
  then show "is_digit r \<and> is_digit c \<and> ty = ''matrix'' @ [r, c]" using d by simp
next
  assume "is_digit r \<and> is_digit c \<and> ty = ''matrix'' @ [r, c]"
  then show "match_matrix ty = Some (r, c)" by (simp add: match_matrix_def)
qed

lemma match_color_iff:
  "match_color ty = Some n \<longleftrightarrow> is_digit n \<and> ty = ''color'' @ [n]"
proof
  assume "match_color ty = Some n"
  then have l: "length ty = 6" and t: "take 5 ty = ''color''" and d: "is_digit n"
    and rc: "n = ty ! 5"
    by (auto simp: match_color_def split: if_splits)
  have "drop 5 ty = [n]" using drop1[of ty 5] l rc by simp
  then have "ty = ''color'' @ [n]" using t by (metis append_take_drop_id)
  then show "is_digit n \<and> ty = ''color'' @ [n]" using d by simp
next
  assume "is_digit n \<and> ty = ''color'' @ [n]"
  then show "match_color ty = Some n" by (simp add: match_color_def)
qed

lemma match_vector_iff:
  "match_vector ty = Some n \<longleftrightarrow> is_digit n \<and> ty = ''vector'' @ [n]"
proof
  assume "match_vector ty = Some n"
  then have l: "length ty = 7" and t: "take 6 ty = ''vector''" and d: "is_digit n"
    and rc: "n = ty ! 6"
    by (auto simp: match_vector_def split: if_splits)
  have "drop 6 ty = [n]" using drop1[of ty 6] l rc by simp
  then have "ty = ''vector'' @ [n]" using t by (metis append_take_drop_id)
  then show "is_digit n \<and> ty = ''vector'' @ [n]" using d by simp
next
  assume "is_digit n \<and> ty = ''vector'' @ [n]"
  then show "match_vector ty = Some n" by (simp add: match_vector_def)
qed

lemma match_array_iff:
  "match_array ty \<longleftrightarrow> (\<exists>x. x \<noteq> [] \<and> CHR 0x0A \<notin> set x \<and> ty = x @ ''array'')"
proof
  assume m: "match_array ty"
  let ?x = "take (length ty - 5) ty"
  have "ty = ?x @ ''array''" using m by (metis append_take_drop_id match_array_def)
  moreover have "?x \<noteq> []" using m by (auto simp: match_array_def)
  moreover have "CHR 0x0A \<notin> set ?x" using m by (simp add: match_array_def)
  ultimately show "\<exists>x. x \<noteq> [] \<and> CHR 0x0A \<notin> set x \<and> ty = x @ ''array''" by blast
next
  assume "\<exists>x. x \<noteq> [] \<and> CHR 0x0A \<notin> set x \<and> ty = x @ ''array''"
  then show "match_array ty" by (auto simp: match_array_def)
qed

lemma recognized_type_matchers:
  "recognized_type ty \<longleftrightarrow>
     ty \<in> {''string'', ''filename'', ''integer'', ''float'', ''boolean''}
     \<or> ty \<in> set shader_types
     \<or> match_matrix ty \<noteq> None \<or> match_color ty \<noteq> None \<or> match_vector ty \<noteq> None
     \<or> match_array ty"
proof -
  have "match_matrix ty \<noteq> None \<longleftrightarrow> (\<exists>r c. is_digit r \<and> is_digit c \<and> ty = ''matrix'' @ [r, c])"
    using match_matrix_iff[of ty] by (cases "match_matrix ty") auto
  moreover have "match_color ty \<noteq> None \<longleftrightarrow> (\<exists>n. is_digit n \<and> ty = ''color'' @ [n])"
    using match_color_iff[of ty] by (cases "match_color ty") auto
  moreover have "match_vector ty \<noteq> None \<longleftrightarrow> (\<exists>n. is_digit n \<and> ty = ''vector'' @ [n])"
    using match_vector_iff[of ty] by (cases "match_vector ty") auto
  ultimately show ?thesis unfolding recognized_type_def match_array_iff by simp
qed

lemma type_block_matrix:
  assumes "is_digit r" "is_digit c" "p_type p = ''matrix'' @ [r, c]"
  shows "type_block rt p =
     Inr (FloatVectorProperty,
          dict_set (dict_set [] ''subtype'' (AStr ''MATRIX'')) ''size'' (ANat (digit_val r * digit_val c)),
          [])"
proof -
  have "match_matrix (p_type p) = Some (r, c)" using assms by (simp add: match_matrix_iff)
  then show ?thesis using assms(3) by (simp add: type_block_def shader_types_def)
qed

lemma type_block_color:
  assumes "is_digit n" "p_type p = ''color'' @ [n]"
  shows "type_block rt p =
     Inr (FloatVectorProperty,
          dict_set (dict_set [] ''subtype'' (AStr ''COLOR'')) ''size'' (ANat (digit_val n)), [])"
proof -
  have "match_color (p_type p) = Some n" using assms by (simp add: match_color_iff)
  moreover have "match_matrix (p_type p) = None" using assms by (simp add: match_matrix_def)
  ultimately show ?thesis using assms(2) by (simp add: type_block_def shader_types_def)
qed

lemma type_block_vector:
  assumes "is_digit n" "p_type p = ''vector'' @ [n]"
  shows "type_block rt p =
     Inr (FloatVectorProperty,
          dict_set (dict_set [] ''subtype'' (AStr (if digit_val n = 3 then ''XYZ'' else ''NONE'')))
            ''size'' (ANat (digit_val n)), [])"
proof -
  have "match_vector (p_type p) = Some n" using assms by (simp add: match_vector_iff)
  moreover have "match_matrix (p_type p) = None" using assms by (simp add: match_matrix_def)
  moreover have "match_color (p_type p) = None" using assms by (simp add: match_color_def)
  ultimately show ?thesis using assms(2) by (simp add: type_block_def shader_types_def Let_def)
qed

lemma type_block_array:
  assumes "p_type p = x @ ''array''"
  shows "\<exists>lg. type_block rt p = Inr (StringProperty, [], lg)"
proof -
  have l: "last (p_type p) = CHR ''y''" using assms by simp
  have n1: "p_type p \<notin> {''string'', ''filename'', ''integer'', ''float'', ''boolean''}"
    using l by auto
  have n2: "p_type p \<notin> set shader_types" using l by (auto simp: shader_types_def)
  have d: "\<not> is_digit (CHR ''y'')" by (simp add: is_digit_def)
  have n3: "match_matrix (p_type p) = None"
  proof (cases "match_matrix (p_type p)")
    case (Some rc)
    then obtain r c where "match_matrix (p_type p) = Some (r, c)" by (cases rc) auto
    then show ?thesis using l d by (simp add: match_matrix_iff)
  qed simp
  have n4: "match_color (p_type p) = None"
  proof (cases "match_color (p_type p)")
    case (Some n)
    then show ?thesis using l d by (simp add: match_color_iff)
  qed simp
  have n5: "match_vector (p_type p) = None"
  proof (cases "match_vector (p_type p)")
    case (Some n)
    then show ?thesis using l d by (simp add: match_vector_iff)
  qed simp
  show ?thesis using n1 n2 n3 n4 n5
    by (cases "match_array (p_type p)") (simp_all add: type_block_def Let_def)
qed

lemma set_parsed_string:
  "set_parsed rt StringProperty p a key fo attrs =
     Inr (if hasAttribute (p_attrs p) a
          then dict_set attrs key (AVal (PStr (getAttribute (p_attrs p) a))) else attrs)"
  by (simp add: set_parsed_def parse_val_def)

lemma create_property_string:
  assumes "type_block rt p = Inr (StringProperty, a0, lg)"
  shows "\<exists>attrs. create_property rt p = (lg, Inr (p_name p, StringProperty, attrs))"
  by (simp add: create_property_def assms set_parsed_string bind_err_def Let_def)

lemma parse_val_float_vector:
  "parse_val rt FloatVectorProperty s fo = Inl e \<Longrightarrow> e = ValueError \<and> \<not> floats_readable rt s"
  "parse_val rt FloatVectorProperty s fo = Inr v \<Longrightarrow> floats_readable rt s"
  using split_str_nonempty[of s]
  by (auto simp: parse_val_def floats_readable_def split: option.splits if_splits list.splits
        dest: those_length)

lemma set_parsed_float_vector_Inl:
  "set_parsed rt FloatVectorProperty p a key fo attrs = Inl e \<Longrightarrow>
     e = ValueError \<and> hasAttribute (p_attrs p) a \<and> \<not> floats_readable rt (getAttribute (p_attrs p) a)"
  by (auto simp: set_parsed_def split: if_splits sum.splits dest: parse_val_float_vector)

lemma set_parsed_float_vector_Inr:
  "set_parsed rt FloatVectorProperty p a key fo attrs = Inr attrs' \<Longrightarrow>
     (hasAttribute (p_attrs p) a \<longrightarrow> floats_readable rt (getAttribute (p_attrs p) a))
     \<and> (\<forall>k. k \<noteq> key \<longrightarrow> map_of attrs' k = map_of attrs k)"
  by (auto simp: set_parsed_def map_of_dict_set split: if_splits sum.splits
        dest: parse_val_float_vector)

lemma create_property_float_vector:
  assumes tb: "type_block rt p = Inr (FloatVectorProperty, a0, lg)"
    and sub: "map_of a0 ''subtype'' = Some (AStr subtype)"
    and sz: "map_of a0 ''size'' = Some (ANat n)"
    and cp: "create_property rt p = (lg', res)"
  shows "lg' = lg \<and> float_vector_result rt p res subtype n"
proof -
  let ?a2 = "dict_set (dict_set a0 ''name''
                 (AStr (if hasAttribute (p_attrs p) ''uiname''
                        then getAttribute (p_attrs p) ''uiname''
                        else title_str rt (p_name p)))) ''description''
                 (AStr (getAttribute (p_attrs p) ''doc''))"
  have a2: "map_of ?a2 ''subtype'' = Some (AStr subtype)" "map_of ?a2 ''size'' = Some (ANat n)"
    using sub sz by (simp_all add: map_of_dict_set)
  have lg: "lg' = lg" using cp tb by (simp add: create_property_def)
  have res: "res =
           bind_err (set_parsed rt FloatVectorProperty p ''uimin'' ''min'' True ?a2) (\<lambda>attrs3.
           bind_err (set_parsed rt FloatVectorProperty p ''uimax'' ''max'' True attrs3) (\<lambda>attrs4.
           bind_err (set_parsed rt FloatVectorProperty p ''uisoftmin'' ''soft_min'' True attrs4) (\<lambda>attrs5.
           bind_err (set_parsed rt FloatVectorProperty p ''uisoftmax'' ''soft_max'' True attrs5) (\<lambda>attrs6.
           bind_err (set_parsed rt FloatVectorProperty p ''value'' ''default'' False attrs6) (\<lambda>attrs7.
           Inr (p_name p, FloatVectorProperty, attrs7))))))"
    using cp tb by (simp add: create_property_def Let_def)
  show ?thesis
  proof (cases "set_parsed rt FloatVectorProperty p ''uimin'' ''min'' True ?a2")
    case (Inl e)
    then show ?thesis using res lg set_parsed_float_vector_Inl[OF Inl]
      by (simp add: bind_err_def float_vector_result_def float_bounds_readable_def)
  next
    case r3: (Inr a3)
    note k3 = set_parsed_float_vector_Inr[OF r3]
    show ?thesis
    proof (cases "set_parsed rt FloatVectorProperty p ''uimax'' ''max'' True a3")
      case (Inl e)
      then show ?thesis using res lg r3 set_parsed_float_vector_Inl[OF Inl]
        by (simp add: bind_err_def float_vector_result_def float_bounds_readable_def)
    next
      case r4: (Inr a4)
      note k4 = set_parsed_float_vector_Inr[OF r4]
      show ?thesis
      proof (cases "set_parsed rt FloatVectorProperty p ''uisoftmin'' ''soft_min'' True a4")
        case (Inl e)
        then show ?thesis using res lg r3 r4 set_parsed_float_vector_Inl[OF Inl]
          by (simp add: bind_err_def float_vector_result_def float_bounds_readable_def)
      next
        case r5: (Inr a5)
        note k5 = set_parsed_float_vector_Inr[OF r5]
        show ?thesis
        proof (cases "set_parsed rt FloatVectorProperty p ''uisoftmax'' ''soft_max'' True a5")
          case (Inl e)
          then show ?thesis using res lg r3 r4 r5 set_parsed_float_vector_Inl[OF Inl]
            by (simp add: bind_err_def float_vector_result_def float_bounds_readable_def)
        next
          case r6: (Inr a6)
          note k6 = set_parsed_float_vector_Inr[OF r6]
          show ?thesis
          proof (cases "set_parsed rt FloatVectorProperty p ''value'' ''default'' False a6")
            case (Inl e)
            then show ?thesis using res lg r3 r4 r5 r6 set_parsed_float_vector_Inl[OF Inl]
              by (simp add: bind_err_def float_vector_result_def float_bounds_readable_def)
          next
            case r7: (Inr a7)
            note k7 = set_parsed_float_vector_Inr[OF r7]
            have "map_of a7 ''subtype'' = Some (AStr subtype)" "map_of a7 ''size'' = Some (ANat n)"
              using a2 k3 k4 k5 k6 k7 by simp_all
            then show ?thesis using res lg r3 r4 r5 r6 r7 k3 k4 k5 k6 k7
              by (simp add: bind_err_def float_vector_result_def float_bounds_readable_def)
          qed
        qed
      qed
    qed
  qed
qed

lemma sample_param_attrs: "hasAttribute (p_attrs (sample_param ty)) ''uimin''" 
  "\<not> hasAttribute (p_attrs (sample_param ty)) ''uimax''"
  "\<not> hasAttribute (p_attrs (sample_param ty)) ''uisoftmin''"
  "\<not> hasAttribute (p_attrs (sample_param ty)) ''uisoftmax''"
  "hasAttribute (p_attrs (sample_param ty)) ''value''"
  "\<not> hasAttribute (p_attrs (sample_param ty)) ''uiname''"
  "getAttribute (p_attrs (sample_param ty)) ''uimin'' = ''0''"
  "getAttribute (p_attrs (sample_param ty)) ''value'' = ''0.5,1''"
  "getAttribute (p_attrs (sample_param ty)) ''doc'' = []"
  by (simp_all add: sample_param_def hasAttribute_def getAttribute_def)

lemma sample_param_fields: "p_name (sample_param ty) = ''in1''" "p_type (sample_param ty) = ty"
  "p_parent (sample_param ty) = ''ND_sample''" "title_str sample_runtime x = x"
  by (simp_all add: sample_param_def sample_runtime_def)

lemma sample_py_float: "py_float sample_runtime ''0'' = Some ''0''" "py_float sample_runtime ''0.5'' = Some ''0.5''"
  "py_float sample_runtime ''1'' = Some ''1''"
  by (simp_all add: sample_runtime_def is_digit_def)

lemma sample_parse_val: "parse_val sample_runtime FloatVectorProperty ''0'' True = Inr (PFloat ''0'')"
  "parse_val sample_runtime FloatVectorProperty ''0.5,1'' False = Inr (PFloats [''0.5'', ''1''])"
  by (simp_all add: parse_val_def sample_py_float)

lemma sample_type_block: "type_block sample_runtime (sample_param ''matrix34'') =
     Inr (FloatVectorProperty,
          dict_set (dict_set [] ''subtype'' (AStr ''MATRIX'')) ''size'' (ANat (digit_val CHR ''3'' * digit_val CHR ''4'')),
          [])"
  by (intro type_block_matrix) (simp_all add: is_digit_def sample_param_def)

lemma sample_matrix_property:
  "create_property sample_runtime (sample_param ''matrix34'') =
     ([], Inr (''in1'', FloatVectorProperty,
       [(''subtype'', AStr ''MATRIX''), (''size'', ANat 12),
        (''name'', AStr ''in1''), (''description'', AStr []),
        (''min'', AVal (PFloat ''0'')),
        (''default'', AVal (PFloats [''0.5'', ''1'']))]))"
  by (simp add: create_property_def sample_type_block set_parsed_def sample_param_attrs sample_param_fields sample_parse_val bind_err_def digit_val_def)

lemma sample_not_recognized: "\<not> recognized_type ''array''"
  unfolding recognized_type_matchers
  by (simp add: shader_types_def match_matrix_def match_color_def
          match_vector_def match_array_def)

text \<open>
  C6. For a type string \<^verbatim>\<open>matrixRC\<close>, \<^verbatim>\<open>colorN\<close> or \<^verbatim>\<open>vectorN\<close> with single digits,
  \<^verbatim>\<open>create_property\<close> logs nothing and gives a float-vector property of size R*C
  with subtype MATRIX, of size N with subtype COLOR, or of size N with subtype XYZ when
  N is 3 and NONE otherwise; it raises (ValueError) exactly when a bound or the default
  of the parameter does not read as floats. For a type string ending in \<^verbatim>\<open>array\<close> it
  returns a string property and does not raise.
\<close>

theorem create_property_sized_types:
  assumes "create_property rt mx_param = (lg, res)"
  shows "(\<forall>r c. is_digit r \<and> is_digit c \<and> p_type mx_param = ''matrix'' @ [r, c] \<longrightarrow>
            lg = [] \<and> float_vector_result rt mx_param res ''MATRIX'' (digit_val r * digit_val c))
     \<and> (\<forall>n. is_digit n \<and> p_type mx_param = ''color'' @ [n] \<longrightarrow>
            lg = [] \<and> float_vector_result rt mx_param res ''COLOR'' (digit_val n))
     \<and> (\<forall>n. is_digit n \<and> p_type mx_param = ''vector'' @ [n] \<longrightarrow>
            lg = [] \<and> float_vector_result rt mx_param res
                        (if digit_val n = 3 then ''XYZ'' else ''NONE'') (digit_val n))
     \<and> (\<forall>x. p_type mx_param = x @ ''array'' \<longrightarrow>
            (\<exists>attrs. res = Inr (p_name mx_param, StringProperty, attrs)))"
proof (intro conjI allI impI)
  fix r c
  assume h: "is_digit r \<and> is_digit c \<and> p_type mx_param = ''matrix'' @ [r, c]"
  then have tb: "type_block rt mx_param =
     Inr (FloatVectorProperty,
          dict_set (dict_set [] ''subtype'' (AStr ''MATRIX'')) ''size'' (ANat (digit_val r * digit_val c)),
          [])"
    by (intro type_block_matrix) simp_all
  have "lg = [] \<and> float_vector_result rt mx_param res ''MATRIX'' (digit_val r * digit_val c)"
    by (rule create_property_float_vector[OF tb _ _ assms]) simp_all
  then show "lg = []" and "float_vector_result rt mx_param res ''MATRIX'' (digit_val r * digit_val c)"
    by simp_all
next
  fix n
  assume h: "is_digit n \<and> p_type mx_param = ''color'' @ [n]"
  then have tb: "type_block rt mx_param =
     Inr (FloatVectorProperty,
          dict_set (dict_set [] ''subtype'' (AStr ''COLOR'')) ''size'' (ANat (digit_val n)), [])"
    by (intro type_block_color) simp_all
  have "lg = [] \<and> float_vector_result rt mx_param res ''COLOR'' (digit_val n)"
    by (rule create_property_float_vector[OF tb _ _ assms]) simp_all
  then show "lg = []" and "float_vector_result rt mx_param res ''COLOR'' (digit_val n)"
    by simp_all
next
  fix n
  assume h: "is_digit n \<and> p_type mx_param = ''vector'' @ [n]"
  then have tb: "type_block rt mx_param =
     Inr (FloatVectorProperty,
          dict_set (dict_set [] ''subtype'' (AStr (if digit_val n = 3 then ''XYZ'' else ''NONE'')))
            ''size'' (ANat (digit_val n)), [])"
    by (intro type_block_vector) simp_all
  have "lg = [] \<and> float_vector_result rt mx_param res
          (if digit_val n = 3 then ''XYZ'' else ''NONE'') (digit_val n)"
    by (rule create_property_float_vector[OF tb _ _ assms]) simp_all
  then show "lg = []" and "float_vector_result rt mx_param res
          (if digit_val n = 3 then ''XYZ'' else ''NONE'') (digit_val n)"
    by simp_all
next
  fix x
  assume "p_type mx_param = x @ ''array''"
  then obtain lg0 where "type_block rt mx_param = Inr (StringProperty, [], lg0)"
    using type_block_array by blast
  then show "\<exists>attrs. res = Inr (p_name mx_param, StringProperty, attrs)"
    using create_property_string[of rt mx_param "[]" lg0] assms by auto
qed

theorem create_property_sized_types_witness:
  "create_property sample_runtime (sample_param ''matrix34'') =
     ([], Inr (''in1'', FloatVectorProperty,
       [(''subtype'', AStr ''MATRIX''), (''size'', ANat 12),
        (''name'', AStr ''in1''), (''description'', AStr []),
        (''min'', AVal (PFloat ''0'')),
        (''default'', AVal (PFloats [''0.5'', ''1'']))]))
   \<and> is_digit CHR ''3'' \<and> is_digit CHR ''4''
   \<and> p_type (sample_param ''matrix34'') = ''matrix'' @ [CHR ''3'', CHR ''4'']
   \<and> float_vector_result sample_runtime (sample_param ''matrix34'')
        (Inr (''in1'', FloatVectorProperty,
          [(''subtype'', AStr ''MATRIX''), (''size'', ANat 12),
           (''name'', AStr ''in1''), (''description'', AStr []),
           (''min'', AVal (PFloat ''0'')),
           (''default'', AVal (PFloats [''0.5'', ''1'']))]))
        ''MATRIX'' (digit_val CHR ''3'' * digit_val CHR ''4'')"
proof -
  have d: "is_digit CHR ''3'' \<and> is_digit CHR ''4''
      \<and> p_type (sample_param ''matrix34'') = ''matrix'' @ [CHR ''3'', CHR ''4'']"
    by (simp add: is_digit_def sample_param_fields)
  note t = create_property_sized_types[OF sample_matrix_property, THEN conjunct1, rule_format, OF d]
  from t have "float_vector_result sample_runtime (sample_param ''matrix34'')
        (Inr (''in1'', FloatVectorProperty,
          [(''subtype'', AStr ''MATRIX''), (''size'', ANat 12),
           (''name'', AStr ''in1''), (''description'', AStr []),
           (''min'', AVal (PFloat ''0'')),
           (''default'', AVal (PFloats [''0.5'', ''1'']))]))
        ''MATRIX'' (digit_val CHR ''3'' * digit_val CHR ''4'')" by (rule conjunct2)
  then show ?thesis using d sample_matrix_property by simp
qed

text \<open>
  C7. For a type string that no rule recognizes, \<^verbatim>\<open>create_property\<close> returns a
  string property, logs one warning that carries the type, the parameter and the name
  of the owning definition, and does not raise.
\<close>

theorem create_property_unrecognized_type:
  assumes "\<not> recognized_type (p_type mx_param)"
  shows "\<exists>attrs. create_property rt mx_param =
           ([LogWarnUnsupportedType (p_type mx_param) (p_name mx_param) (p_parent mx_param)],
            Inr (p_name mx_param, StringProperty, attrs))"
proof -
  have "type_block rt mx_param =
          Inr (StringProperty, [],
               [LogWarnUnsupportedType (p_type mx_param) (p_name mx_param) (p_parent mx_param)])"
  proof -
    have "match_matrix (p_type mx_param) = None"
      using assms unfolding recognized_type_matchers
      by (cases "match_matrix (p_type mx_param)") auto
    moreover have "match_color (p_type mx_param) = None"
      "match_vector (p_type mx_param) = None" "\<not> match_array (p_type mx_param)"
      "p_type mx_param \<notin> set shader_types"
      "p_type mx_param \<notin> {''string'', ''filename'', ''integer'', ''float'', ''boolean''}"
      using assms unfolding recognized_type_matchers by simp_all
    ultimately show ?thesis by (simp add: type_block_def Let_def)
  qed
  then show ?thesis by (rule create_property_string)
qed

theorem create_property_unrecognized_type_witness:
  "\<not> recognized_type (p_type (sample_param ''array''))
   \<and> (\<exists>attrs. create_property sample_runtime (sample_param ''array'') =
         ([LogWarnUnsupportedType ''array'' ''in1'' ''ND_sample''],
          Inr (''in1'', StringProperty, attrs)))"
proof -
  have h: "\<not> recognized_type (p_type (sample_param ''array''))"
    using sample_not_recognized by (simp add: sample_param_fields)
  show ?thesis
    using h create_property_unrecognized_type[OF h, of sample_runtime]
    by (simp add: sample_param_fields)
qed

subsection \<open>\<^verbatim>\<open>create_node_types\<close>\<close>

lemma map_of_dd_append:
  "map_of (dd_append d k x) k' =
     (if k' = k then Some (group_members d k @ [x]) else map_of d k')"
  by (induction d) (auto simp: group_members_def)

lemma map_fst_dd_append:
  "map fst (dd_append d k x) = (if k \<in> set (map fst d) then map fst d else map fst d @ [k])"
proof (induction d)
  case Nil
  then show ?case by simp
next
  case (Cons kv d)
  obtain k' ys where kv: "kv = (k', ys)" by (cases kv)
  show ?case
  proof (cases "k' = k")
    case True
    then show ?thesis using kv by simp
  next
    case False
    then show ?thesis using kv Cons.IH by simp
  qed
qed

lemma keys_dd_append: "fst ` set (dd_append d k x) = insert k (fst ` set d)"
proof -
  have "set (map fst (dd_append d k x)) = insert k (set (map fst d))"
    unfolding map_fst_dd_append by auto
  then show ?thesis by simp
qed

lemma distinct_dd_append:
  "distinct (map fst d) \<Longrightarrow> distinct (map fst (dd_append d k x))"
proof (induction d)
  case Nil
  then show ?case by simp
next
  case (Cons kv d)
  obtain k' ys where kv: "kv = (k', ys)" by (cases kv)
  show ?case
  proof (cases "k' = k")
    case True
    then show ?thesis using Cons.prems kv by simp
  next
    case False
    have "k' \<notin> fst ` set (dd_append d k x)"
      using Cons.prems kv False by (simp add: keys_dd_append)
    then show ?thesis using Cons kv False by simp
  qed
qed

lemma group_fold:
  fixes key :: "'a \<Rightarrow> 'k"
  assumes "distinct (map fst d)"
  shows "distinct (map fst (foldl (\<lambda>d x. dd_append d (key x) x) d xs))
     \<and> fst ` set (foldl (\<lambda>d x. dd_append d (key x) x) d xs) = fst ` set d \<union> key ` set xs
     \<and> (\<forall>k. group_members (foldl (\<lambda>d x. dd_append d (key x) x) d xs) k
            = group_members d k @ filter (\<lambda>x. key x = k) xs)"
  using assms
proof (induction xs arbitrary: d)
  case Nil
  then show ?case by simp
next
  case (Cons x xs)
  let ?d = "dd_append d (key x) x"
  have d: "distinct (map fst ?d)" using Cons.prems by (rule distinct_dd_append)
  have g: "group_members ?d k = group_members d k @ (if key x = k then [x] else [])" for k
    by (auto simp: group_members_def map_of_dd_append)
  show ?case using Cons.IH[OF d] g by (auto simp: keys_dd_append)
qed

lemma group_nodedef_types_props:
  "distinct (map fst (group_nodedef_types ts))"
  "fst ` set (group_nodedef_types ts) = group_key ` set ts"
  "(k, members) \<in> set (group_nodedef_types ts) \<Longrightarrow>
     members = filter (\<lambda>t. group_key t = k) ts \<and> members \<noteq> []"
proof -
  have g: "distinct (map fst (group_nodedef_types ts))
     \<and> fst ` set (group_nodedef_types ts) = fst ` set [] \<union> group_key ` set ts
     \<and> (\<forall>k. group_members (group_nodedef_types ts) k
            = group_members [] k @ filter (\<lambda>x. group_key x = k) ts)"
    unfolding group_nodedef_types_def using group_fold[of "[]" group_key ts] by simp
  show d: "distinct (map fst (group_nodedef_types ts))" using g by blast
  show k: "fst ` set (group_nodedef_types ts) = group_key ` set ts" using g by simp
  assume m: "(k, members) \<in> set (group_nodedef_types ts)"
  then have "map_of (group_nodedef_types ts) k = Some members" using d by simp
  then have "members = group_members (group_nodedef_types ts) k" by (simp add: group_members_def)
  moreover have "group_members (group_nodedef_types ts) k = filter (\<lambda>x. group_key x = k) ts"
    using g by (cases k) (simp add: group_members_def)
  ultimately have eq: "members = filter (\<lambda>t. group_key t = k) ts" by simp
  have "k \<in> group_key ` set ts" using m k by force
  then have "filter (\<lambda>t. group_key t = k) ts \<noteq> []" by (auto simp: filter_empty_conv)
  then show "members = filter (\<lambda>t. group_key t = k) ts \<and> members \<noteq> []" using eq by simp
qed

lemma MxNodedef_new_nodedef:
  "MxNodedef_new rt nd = (lg, Inr t) \<Longrightarrow> ndt_mx_nodedef t = nd"
  by (auto simp: MxNodedef_new_def split: prod.splits sum.splits)

lemma load_nodedefs:
  "foldl (load_nodedef rt) (lg0, acc) nds = (lg, ts) \<Longrightarrow>
     map ndt_mx_nodedef ts = map ndt_mx_nodedef acc @ filter (nodedef_loads rt) nds"
proof (induction nds arbitrary: lg0 acc)
  case Nil
  then show ?case by simp
next
  case (Cons nd nds)
  obtain lg' r where r: "MxNodedef_new rt nd = (lg', r)" by (cases "MxNodedef_new rt nd")
  show ?case
  proof (cases r)
    case (Inl e)
    then have "load_nodedef rt (lg0, acc) nd = (lg0 @ lg' @ [LogErrorNodedef (nd_name nd) e], acc)"
      using r by (simp add: load_nodedef_def)
    moreover have "\<not> nodedef_loads rt nd" using r Inl by (simp add: nodedef_loads_def)
    ultimately show ?thesis using Cons.IH Cons.prems by simp
  next
    case (Inr t)
    then have "load_nodedef rt (lg0, acc) nd = (lg0 @ lg', acc @ [t])"
      using r by (simp add: load_nodedef_def)
    moreover have "nodedef_loads rt nd" using r Inr by (simp add: nodedef_loads_def)
    moreover have "ndt_mx_nodedef t = nd" using r Inr by (simp add: MxNodedef_new_nodedef)
    ultimately show ?thesis using Cons.IH Cons.prems by simp
  qed
qed

lemma MxNode_new_variant_type:
  assumes "members \<noteq> []"
  shows "\<exists>t. MxNode_new rt members = Inr t \<and> variant_type members t"
proof -
  obtain m ms where ms: "members = m # ms" using assms by (cases members) auto
  show ?thesis
    by (simp add: ms MxNode_new_def Let_def variant_type_def variant_ids_def variant_default_def
          map_of_dict_set var_item_def comp_def)
qed

lemma new_node_types_variant_types:
  assumes "\<forall>(k, members) \<in> set groups. members \<noteq> []"
  shows "\<exists>ts. new_node_types rt groups = Inr ts
            \<and> list_all2 (\<lambda>(k, members) t. variant_type members t) groups ts"
  using assms
proof (induction groups)
  case Nil
  then show ?case by simp
next
  case (Cons g groups)
  obtain k members where g: "g = (k, members)" by (cases g)
  then have "members \<noteq> []" using Cons.prems by auto
  then obtain t where t: "MxNode_new rt members = Inr t" "variant_type members t"
    using MxNode_new_variant_type by blast
  obtain ts where ts: "new_node_types rt groups = Inr ts"
      "list_all2 (\<lambda>(k, members) t. variant_type members t) groups ts"
    using Cons by auto
  show ?case using g t ts by (simp add: bind_err_def)
qed

text \<open>The groups stand in the order in which their keys first occur.\<close>

lemma group_keys_order:
  "map fst (foldl (\<lambda>d x. dd_append d (key x) x) [] xs) = rev (remdups (rev (map key xs)))"
proof (induction xs rule: rev_induct)
  case Nil
  then show ?case by simp
next
  case (snoc x xs)
  let ?d = "foldl (\<lambda>d x. dd_append d (key x) x) [] xs"
  have s: "set (map fst ?d) = set (map key xs)" unfolding snoc.IH by simp
  show ?case
  proof (cases "key x \<in> set (map key xs)")
    case True
    then show ?thesis using snoc.IH s by (simp add: map_fst_dd_append)
  next
    case False
    then show ?thesis using snoc.IH s by (simp add: map_fst_dd_append)
  qed
qed

lemma group_nodedef_types_order:
  "map fst (group_nodedef_types ts) = rev (remdups (rev (map group_key ts)))"
  unfolding group_nodedef_types_def by (rule group_keys_order)

text \<open>
  \<^verbatim>\<open>create_node_types\<close> returns, with the types of the definitions that load and
  one node type for each group of them.
\<close>

lemma create_node_types_result:
  assumes "create_node_types rt files = (lg, res)"
  shows "\<exists>ts nts. res = Inr (ts, nts)
     \<and> map ndt_mx_nodedef ts = filter (nodedef_loads rt) (concat files)
     \<and> list_all2 (\<lambda>(k, members) t. variant_type members t) (group_nodedef_types ts) nts"
proof -
  obtain lg0 ts where f: "foldl (load_nodedef rt) ([], []) (concat files) = (lg0, ts)"
    by (cases "foldl (load_nodedef rt) ([], []) (concat files)")
  let ?groups = "group_nodedef_types ts"
  have loaded: "map ndt_mx_nodedef ts = filter (nodedef_loads rt) (concat files)"
    using load_nodedefs[OF f] by simp
  have ne: "\<forall>(k, members) \<in> set ?groups. members \<noteq> []"
  proof (intro ballI)
    fix g assume g: "g \<in> set ?groups"
    obtain k ms where km: "g = (k, ms)" by (cases g)
    have "(k, ms) \<in> set ?groups" using g km by simp
    from group_nodedef_types_props(3)[OF this]
    have "ms \<noteq> []" by (rule conjunct2)
    then show "case g of (k, members) \<Rightarrow> members \<noteq> []" unfolding km prod.case .
  qed
  from new_node_types_variant_types[where rt=rt, OF ne]
  obtain nts where nts: "new_node_types rt ?groups = Inr nts"
      "list_all2 (\<lambda>(k, members) t. variant_type members t) ?groups nts"
    by (elim exE conjE)
  have res: "res = Inr (ts, nts)"
    using assms f nts(1) by (simp add: create_node_types_def bind_err_def)
  show ?thesis
    by (intro exI[of _ ts] exI[of _ nts] conjI) (rule res loaded nts(2))+
qed

lemma sample_loads:
  "nodedef_loads sample_runtime (sample_nodedef ''ND_add_float'' ''add'' ''float'' ''0.5'')"
  "nodedef_loads sample_runtime (sample_nodedef ''ND_add_color3'' ''add'' ''color3'' ''0.5,0.5,1'')"
  "nodedef_loads sample_runtime (sample_nodedef ''ND_mix_float'' ''mix'' ''float'' ''1'')"
  "\<not> nodedef_loads sample_runtime (sample_nodedef ''ND_add_integer'' ''add'' ''integer'' ''one'')"
  by (simp_all add: nodedef_loads_def MxNodedef_new_def sample_nodedef_def create_property_def
        type_block_def set_parsed_def parse_val_def hasAttribute_def getAttribute_def bind_err_def
        sample_runtime_def is_digit_def digit_val_def shader_types_def match_matrix_def
        match_color_def match_vector_def Let_def)

lemma sample_keys:
  "nd_node_string (sample_nodedef name node ty val) = node"
  "getAttribute (nd_attrs (sample_nodedef name node ty val)) ''nodegroup'' = ''math''"
  "nd_name (sample_nodedef name node ty val) = name"
  by (simp_all add: sample_nodedef_def getAttribute_def)

lemma map3: "map f xs = [a, b, c] \<Longrightarrow> \<exists>x y z. xs = [x, y, z] \<and> f x = a \<and> f y = b \<and> f z = c"
  by (auto simp: map_eq_Cons_conv)

lemma map2: "map f xs = [a, b] \<Longrightarrow> \<exists>x y. xs = [x, y] \<and> f x = a \<and> f y = b"
  by (auto simp: map_eq_Cons_conv)

lemma list_all2_two:
  "list_all2 P [x, y] zs \<Longrightarrow> \<exists>u v. zs = [u, v] \<and> P x u \<and> P y v"
  by (auto simp: list_all2_Cons1)

text \<open>
  C9, as the code has it. \<^verbatim>\<open>create_node_types\<close> does not raise. Its node definition
  types are the definitions that load, in the order of the files. They are split into
  groups by the pair of \<^verbatim>\<open>getNodeString()\<close> and \<^verbatim>\<open>getAttribute('nodegroup')\<close>: the
  keys of the groups are distinct and stand in the order of their first occurrence, and
  a group holds exactly the definitions of its key, in their order. The node types
  correspond one to one to the groups, in that order: the selector of a node type lists
  the names of the members (so its length is the size of the group), and its default is
  the name of the first member. The identifiers of a selector are the names of the
  members: they are distinct when the names of the definitions that load are pairwise
  distinct, which the code does not check.
\<close>

theorem create_node_types_groups:
  assumes "create_node_types rt files = (lg, res)"
  shows "\<exists>nodedef_types node_types groups.
     res = Inr (nodedef_types, node_types)
     \<and> map ndt_mx_nodedef nodedef_types = filter (nodedef_loads rt) (concat files)
     \<and> map fst groups =
         rev (remdups (rev (map (\<lambda>t. (nd_node_string (ndt_mx_nodedef t),
                    getAttribute (nd_attrs (ndt_mx_nodedef t)) ''nodegroup'')) nodedef_types)))
     \<and> distinct (map fst groups)
     \<and> (\<forall>(k, members) \<in> set groups.
           members = filter (\<lambda>t. (nd_node_string (ndt_mx_nodedef t),
                    getAttribute (nd_attrs (ndt_mx_nodedef t)) ''nodegroup'') = k) nodedef_types)
     \<and> list_all2 (\<lambda>(k, members) t. variant_type members t) groups node_types
     \<and> (distinct (map nd_name (filter (nodedef_loads rt) (concat files))) \<longrightarrow>
           (\<forall>t \<in> set node_types. distinct (variant_ids t)))"
proof -
  have key: "group_key = (\<lambda>t. (nd_node_string (ndt_mx_nodedef t),
                    getAttribute (nd_attrs (ndt_mx_nodedef t)) ''nodegroup''))"
    by (rule ext) (simp add: group_key_def)
  from create_node_types_result[OF assms] obtain ts nts where
    res: "res = Inr (ts, nts)"
    and loaded: "map ndt_mx_nodedef ts = filter (nodedef_loads rt) (concat files)"
    and nts: "list_all2 (\<lambda>(k, members) t. variant_type members t) (group_nodedef_types ts) nts"
    by (elim exE conjE)
  let ?groups = "group_nodedef_types ts"
  have order: "map fst ?groups = rev (remdups (rev (map group_key ts)))"
    by (rule group_nodedef_types_order)
  have dist: "distinct (map fst ?groups)" by (rule group_nodedef_types_props(1))
  have mem: "\<forall>(k, members) \<in> set ?groups. members = filter (\<lambda>t. group_key t = k) ts"
  proof (intro ballI)
    fix g assume g: "g \<in> set ?groups"
    obtain k ms where km: "g = (k, ms)" by (cases g)
    have "(k, ms) \<in> set ?groups" using g km by simp
    from group_nodedef_types_props(3)[OF this]
    have "ms = filter (\<lambda>t. group_key t = k) ts" by (rule conjunct1)
    then show "case g of (k, members) \<Rightarrow> members = filter (\<lambda>t. group_key t = k) ts"
      unfolding km prod.case .
  qed
  have ids: "\<forall>t \<in> set nts. distinct (variant_ids t)"
    if d: "distinct (map nd_name (filter (nodedef_loads rt) (concat files)))"
  proof
    fix t assume "t \<in> set nts"
    then obtain i where i: "i < length nts" "nts ! i = t" by (auto simp: in_set_conv_nth)
    have len: "length ?groups = length nts" using nts by (rule list_all2_lengthD)
    have p: "(\<lambda>(k, members) t. variant_type members t) (?groups ! i) (nts ! i)"
      using nts i(1) by (rule list_all2_nthD2)
    have gi: "?groups ! i \<in> set ?groups" using i(1) len by simp
    obtain k ms where km: "?groups ! i = (k, ms)" by (cases "?groups ! i")
    have vt: "variant_type ms t" using p unfolding km i(2) by simp
    have "(k, ms) \<in> set ?groups" using gi km by simp
    from group_nodedef_types_props(3)[OF this]
    have ms: "ms = filter (\<lambda>t. group_key t = k) ts" by (rule conjunct1)
    have "distinct (map nd_name (map ndt_mx_nodedef ts))"
      unfolding loaded using d .
    then have "distinct (map (\<lambda>m. nd_name (ndt_mx_nodedef m)) ts)" by (simp add: comp_def)
    then have "distinct (map (\<lambda>m. nd_name (ndt_mx_nodedef m)) ms)"
      unfolding ms by (rule distinct_map_filter)
    then show "distinct (variant_ids t)" using vt by (simp add: variant_type_def)
  qed
  have "res = Inr (ts, nts)
     \<and> map ndt_mx_nodedef ts = filter (nodedef_loads rt) (concat files)
     \<and> map fst ?groups = rev (remdups (rev (map group_key ts)))
     \<and> distinct (map fst ?groups)
     \<and> (\<forall>(k, members) \<in> set ?groups. members = filter (\<lambda>t. group_key t = k) ts)
     \<and> list_all2 (\<lambda>(k, members) t. variant_type members t) ?groups nts
     \<and> (distinct (map nd_name (filter (nodedef_loads rt) (concat files))) \<longrightarrow>
           (\<forall>t \<in> set nts. distinct (variant_ids t)))"
    using res loaded order dist mem nts ids
    by (intro conjI impI) assumption+
  then show ?thesis unfolding key by (intro exI)
qed

theorem create_node_types_groups_witness:
  "distinct (map nd_name (filter (nodedef_loads sample_runtime) (concat sample_files)))
   \<and> (\<exists>lg nodedef_types node_types.
         create_node_types sample_runtime sample_files = (lg, Inr (nodedef_types, node_types))
         \<and> map nd_name (map ndt_mx_nodedef nodedef_types)
             = [''ND_add_float'', ''ND_add_color3'', ''ND_mix_float'']
         \<and> length node_types = 2
         \<and> map variant_ids node_types
             = [[''ND_add_float'', ''ND_add_color3''], [''ND_mix_float'']]
         \<and> map variant_default node_types = [Some ''ND_add_float'', Some ''ND_mix_float'']
         \<and> list_all (\<lambda>t. distinct (variant_ids t)) node_types)"
proof -
  let ?a = "sample_nodedef ''ND_add_float'' ''add'' ''float'' ''0.5''"
  let ?b = "sample_nodedef ''ND_add_color3'' ''add'' ''color3'' ''0.5,0.5,1''"
  let ?c = "sample_nodedef ''ND_mix_float'' ''mix'' ''float'' ''1''"
  have f: "filter (nodedef_loads sample_runtime) (concat sample_files) = [?a, ?b, ?c]"
    by (simp add: sample_files_def sample_loads)
  have d: "distinct (map nd_name (filter (nodedef_loads sample_runtime) (concat sample_files)))"
    unfolding f by (simp add: sample_keys)
  obtain lg res where e: "create_node_types sample_runtime sample_files = (lg, res)"
    by (cases "create_node_types sample_runtime sample_files")
  from create_node_types_groups[OF e] obtain ts nts groups where
    res: "res = Inr (ts, nts)"
    and loaded: "map ndt_mx_nodedef ts =
                   filter (nodedef_loads sample_runtime) (concat sample_files)"
    and order: "map fst groups =
         rev (remdups (rev (map (\<lambda>t. (nd_node_string (ndt_mx_nodedef t),
                    getAttribute (nd_attrs (ndt_mx_nodedef t)) ''nodegroup'')) ts)))"
    and mem: "\<forall>(k, members) \<in> set groups.
           members = filter (\<lambda>t. (nd_node_string (ndt_mx_nodedef t),
                    getAttribute (nd_attrs (ndt_mx_nodedef t)) ''nodegroup'') = k) ts"
    and nts: "list_all2 (\<lambda>(k, members) t. variant_type members t) groups nts"
    and uniq: "distinct (map nd_name (filter (nodedef_loads sample_runtime) (concat sample_files)))
                 \<longrightarrow> (\<forall>t \<in> set nts. distinct (variant_ids t))"
    by (elim exE conjE)
  from map3[OF loaded[unfolded f]] obtain t1 t2 t3 where
    ts: "ts = [t1, t2, t3]" and t: "ndt_mx_nodedef t1 = ?a" "ndt_mx_nodedef t2 = ?b"
      "ndt_mx_nodedef t3 = ?c"
    by (elim exE conjE)
  have keys: "map fst groups = [(''add'', ''math''), (''mix'', ''math'')]"
    unfolding order ts by (simp add: t sample_keys)
  from map2[OF keys] obtain g1 g2 where
    groups: "groups = [g1, g2]" and k: "fst g1 = (''add'', ''math'')" "fst g2 = (''mix'', ''math'')"
    by (elim exE conjE)
  obtain m1 where g1: "g1 = ((''add'', ''math''), m1)" using k(1) by (cases g1) simp
  obtain m2 where g2: "g2 = ((''mix'', ''math''), m2)" using k(2) by (cases g2) simp
  have m1: "m1 = [t1, t2]"
    using mem unfolding groups g1 g2 ts by (simp add: t sample_keys)
  have m2: "m2 = [t3]"
    using mem unfolding groups g1 g2 ts by (simp add: t sample_keys)
  from list_all2_two[OF nts[unfolded groups g1 g2 m1 m2]] obtain n1 n2 where
    n: "nts = [n1, n2]" and v1: "variant_type [t1, t2] n1" and v2: "variant_type [t3] n2"
    by (elim exE conjE) simp
  have ids: "variant_ids n1 = [''ND_add_float'', ''ND_add_color3'']"
      "variant_ids n2 = [''ND_mix_float'']"
    using v1 v2 by (simp_all add: variant_type_def t sample_keys)
  have dflt: "variant_default n1 = Some ''ND_add_float''" "variant_default n2 = Some ''ND_mix_float''"
    using v1 v2 by (simp_all add: variant_type_def t sample_keys)
  have r1: "create_node_types sample_runtime sample_files = (lg, Inr (ts, nts))"
    using e res by simp
  have r2: "map nd_name (map ndt_mx_nodedef ts) = [''ND_add_float'', ''ND_add_color3'', ''ND_mix_float'']"
    unfolding loaded f by (simp add: sample_keys)
  have r3: "length nts = 2" unfolding n by simp
  have r4: "map variant_ids nts = [[''ND_add_float'', ''ND_add_color3''], [''ND_mix_float'']]"
    unfolding n using ids by simp
  have r5: "map variant_default nts = [Some ''ND_add_float'', Some ''ND_mix_float'']"
    unfolding n using dflt by simp
  have r6: "list_all (\<lambda>t. distinct (variant_ids t)) nts"
    using uniq d by (simp add: list_all_iff)
  show ?thesis
    by (intro conjI exI[of _ lg] exI[of _ ts] exI[of _ nts]) (rule d r1 r2 r3 r4 r5 r6)+
qed

text \<open>
  C9 as stated fails: a node definition of the same name in two files is loaded twice,
  both end in one group, and the selector of the node type lists the identifier twice.
\<close>

theorem create_node_types_duplicate_identifier:
  "\<exists>lg nodedef_types node_types.
     create_node_types sample_runtime duplicate_files = (lg, Inr (nodedef_types, node_types))
     \<and> map variant_ids node_types = [[''ND_add_float'', ''ND_add_float'']]
     \<and> \<not> list_all (\<lambda>t. distinct (variant_ids t)) node_types"
proof -
  obtain lg res where e: "create_node_types sample_runtime duplicate_files = (lg, res)"
    by (cases "create_node_types sample_runtime duplicate_files")
  from create_node_types_result[OF e] obtain ts nts where
    res: "res = Inr (ts, nts)"
    and loaded: "map ndt_mx_nodedef ts =
                   filter (nodedef_loads sample_runtime) (concat duplicate_files)"
    and nts: "list_all2 (\<lambda>(k, members) t. variant_type members t) (group_nodedef_types ts) nts"
    by (elim exE conjE)
  let ?nd = "sample_nodedef ''ND_add_float'' ''add'' ''float'' ''0.5''"
  have "map ndt_mx_nodedef ts = [?nd, ?nd]"
    unfolding loaded by (simp add: duplicate_files_def sample_loads)
  from map2[OF this] obtain t1 t2 where
    ts: "ts = [t1, t2]" and t1: "ndt_mx_nodedef t1 = ?nd" and t2: "ndt_mx_nodedef t2 = ?nd"
    by (elim exE conjE)
  have g: "group_nodedef_types ts = [((''add'', ''math''), [t1, t2])]"
    unfolding ts by (simp add: group_nodedef_types_def group_key_def t1 t2 sample_keys)
  from nts[unfolded g] have "\<exists>u. nts = [u] \<and> variant_type [t1, t2] u"
    by (auto simp: list_all2_Cons1)
  then obtain n where n: "nts = [n]" and v: "variant_type [t1, t2] n" by (elim exE conjE)
  have ids: "variant_ids n = [''ND_add_float'', ''ND_add_float'']"
    using v by (simp add: variant_type_def t1 t2 sample_keys)
  have a: "create_node_types sample_runtime duplicate_files = (lg, Inr (ts, nts))"
    using e res by simp
  have b: "map variant_ids nts = [[''ND_add_float'', ''ND_add_float'']]"
    unfolding n using ids by simp
  have c: "\<not> list_all (\<lambda>t. distinct (variant_ids t)) nts"
    unfolding n using ids by simp
  show ?thesis
    by (intro exI[of _ lg] exI[of _ ts] exI[of _ nts] conjI) (rule a b c)+
qed

subsection \<open>The graph compiler\<close>

lemma extends_refl: "extends st st"
  by (simp add: extends_def)

lemma extends_trans: "extends st st' \<Longrightarrow> extends st' st'' \<Longrightarrow> extends st st''"
  by (auto simp: extends_def)

lemma doc_log_write: "doc (log_write e st) = doc st"
  by (simp add: log_write_def)

lemma extends_log_write: "extends st (log_write e st)"
  by (simp add: extends_def doc_log_write)

lemma extends_names: "extends st st' \<Longrightarrow> x \<in> mx_name ` set (doc st) \<Longrightarrow> x \<in> mx_name ` set (doc st')"
  by (auto simp: extends_def)

lemma topological_nth:
  assumes "topological d" "i < length d" "r \<in> set (node_refs (d ! i))"
  shows "\<exists>j<i. mx_name (d ! j) = r"
  using assms(1)[unfolded topological_def, rule_format, OF assms(2) assms(3)] .

lemma topological_snoc:
  "topological (d @ [n]) \<longleftrightarrow> topological d \<and> (\<forall>r \<in> set (node_refs n). r \<in> mx_name ` set d)"
proof
  assume t: "topological (d @ [n])"
  have "topological d"
    unfolding topological_def
  proof (intro allI impI ballI)
    fix i r assume i: "i < length d" and r: "r \<in> set (node_refs (d ! i))"
    have i': "i < length (d @ [n])" using i by simp
    have r': "r \<in> set (node_refs ((d @ [n]) ! i))" using i r by (simp add: nth_append)
    from topological_nth[OF t i' r'] obtain j where j: "j < i" "mx_name ((d @ [n]) ! j) = r"
      by (elim exE conjE)
    have "(d @ [n]) ! j = d ! j" using j(1) i by (simp add: nth_append)
    then show "\<exists>j<i. mx_name (d ! j) = r" using j by (intro exI[of _ j]) simp
  qed
  moreover have "\<forall>r \<in> set (node_refs n). r \<in> mx_name ` set d"
  proof
    fix r assume r: "r \<in> set (node_refs n)"
    have i': "length d < length (d @ [n])" by simp
    have r': "r \<in> set (node_refs ((d @ [n]) ! length d))" using r by simp
    from topological_nth[OF t i' r'] obtain j where j: "j < length d" "mx_name ((d @ [n]) ! j) = r"
      by (elim exE conjE)
    have "(d @ [n]) ! j = d ! j" using j(1) by (simp add: nth_append)
    then have "mx_name (d ! j) = r" using j(2) by simp
    moreover have "d ! j \<in> set d" using j(1) by simp
    ultimately show "r \<in> mx_name ` set d" by (metis imageI)
  qed
  ultimately show "topological d \<and> (\<forall>r \<in> set (node_refs n). r \<in> mx_name ` set d)" by simp
next
  assume a: "topological d \<and> (\<forall>r \<in> set (node_refs n). r \<in> mx_name ` set d)"
  then have td: "topological d" and rn: "\<forall>r \<in> set (node_refs n). r \<in> mx_name ` set d"
    by simp_all
  show "topological (d @ [n])"
    unfolding topological_def
  proof (intro allI impI ballI)
    fix i r assume i: "i < length (d @ [n])" and r: "r \<in> set (node_refs ((d @ [n]) ! i))"
    show "\<exists>j<i. mx_name ((d @ [n]) ! j) = r"
    proof (cases "i < length d")
      case True
      then have ri: "r \<in> set (node_refs (d ! i))" using r by (simp add: nth_append)
      from topological_nth[OF td True ri] obtain j where j: "j < i" "mx_name (d ! j) = r"
        by (elim exE conjE)
      have "(d @ [n]) ! j = d ! j" using j(1) True by (simp add: nth_append)
      then show ?thesis using j by (intro exI[of _ j]) simp
    next
      case False
      then have il: "i = length d" using i by simp
      then have "r \<in> set (node_refs n)" using r by simp
      then have "r \<in> mx_name ` set d" using rn by (rule bspec[rotated])
      then obtain x where x: "x \<in> set d" "r = mx_name x" by (elim imageE)
      then obtain j where j: "j < length d" "d ! j = x" by (auto simp: in_set_conv_nth)
      have "(d @ [n]) ! j = d ! j" using j(1) by (simp add: nth_append)
      then show ?thesis using j x il by (intro exI[of _ j]) simp
    qed
  qed
qed

lemma extends_addNode:
  "\<forall>r \<in> set (node_refs n). r \<in> mx_name ` set (doc st) \<Longrightarrow> extends st (addNode n st)"
  by (simp add: extends_def addNode_def topological_snoc)

lemma names_addNode: "mx_name n \<in> mx_name ` set (doc (addNode n st))"
  by (simp add: addNode_def)

lemma sound_recD:
  "sound_rec rec \<Longrightarrow> rec node k st = Inr (r, st') \<Longrightarrow>
     extends st st' \<and> (\<forall>n. r = Some n \<longrightarrow> mx_name n \<in> mx_name ` set (doc st'))"
  unfolding sound_rec_def by (elim allE impE) assumption+

lemma compute_node_sound:
  assumes "sound_rec rec" "compute_node rec g node k st = Inr (r, st')"
  shows "extends st st' \<and> (\<forall>n. r = Some n \<longrightarrow> mx_name n \<in> mx_name ` set (doc st'))"
proof (cases "node_class (g node) = Foreign")
  case True
  then have "r = None" "st' = log_write (LogWarnUnsupportedNode node) st"
    using assms(2) by (simp_all add: compute_node_def)
  then show ?thesis by (simp add: extends_log_write)
next
  case False
  then have "rec node k st = Inr (r, st')" using assms(2) by (simp add: compute_node_def)
  then show ?thesis using assms(1) by (rule sound_recD[rotated])
qed

lemma get_input_link_sound:
  assumes "sound_rec rec" "get_input_link rec g self in_key st = Inr (r, st')"
  shows "extends st st' \<and> (\<forall>n. r = Some n \<longrightarrow> mx_name n \<in> mx_name ` set (doc st'))"
proof (cases "lookup_input (inputs (g self)) in_key")
  case (Inl e)
  then show ?thesis using assms(2) by (simp add: get_input_link_def)
next
  case (Inr s)
  show ?thesis
  proof (cases "links s")
    case Nil
    then have "r = None" "st' = st" using assms(2) Inr by (simp_all add: get_input_link_def)
    then show ?thesis by (simp add: extends_refl)
  next
    case (Cons l ls)
    let ?st1 = "if \<not> is_valid l
                then log_write (LogErrorInvalidLink (from_node l) (from_socket l) (sock_name s) self) st
                else st"
    have c: "compute_node rec g (from_node l) (from_socket l) ?st1 = Inr (r, st')"
      using assms(2) Inr Cons by (simp add: get_input_link_def)
    have e1: "extends st ?st1" by (simp add: extends_refl extends_log_write)
    from compute_node_sound[OF assms(1) c]
    show ?thesis using e1 extends_trans by blast
  qed
qed

lemma get_input_value_sound:
  assumes "sound_rec rec" "get_input_value rec g self in_key st = Inr (v, st')"
  shows "extends st st' \<and> (\<forall>n. v = NodeVal n \<longrightarrow> mx_name n \<in> mx_name ` set (doc st'))"
proof (cases "get_input_link rec g self in_key st")
  case (Inl e)
  then show ?thesis using assms(2) by (simp add: get_input_value_def)
next
  case (Inr p)
  obtain r st1 where p: "p = (r, st1)" by (cases p)
  note s = get_input_link_sound[OF assms(1) Inr[unfolded p]]
  show ?thesis
  proof (cases r)
    case None
    then show ?thesis using assms(2) Inr p s
      by (auto simp: get_input_value_def split: sum.splits)
  next
    case (Some n)
    then show ?thesis using assms(2) Inr p s by (auto simp: get_input_value_def)
  qed
qed

lemma input_values_sound:
  assumes "sound_rec rec"
  shows "input_values rec g self ks st = Inr (vs, st') \<Longrightarrow>
     extends st st' \<and> (\<forall>n. NodeVal n \<in> set vs \<longrightarrow> mx_name n \<in> mx_name ` set (doc st'))"
proof (induction ks arbitrary: st vs st')
  case Nil
  then show ?case by (simp add: extends_refl)
next
  case (Cons k ks)
  from Cons.prems obtain v st1 where v: "get_input_value rec g self (Idx k) st = Inr (v, st1)"
    by (cases "get_input_value rec g self (Idx k) st") auto
  from Cons.prems v obtain vs' where vs': "input_values rec g self ks st1 = Inr (vs', st')"
      and eq: "vs = v # vs'"
    by (cases "input_values rec g self ks st1") auto
  note a = get_input_value_sound[OF assms v]
  note b = Cons.IH[OF vs']
  have "extends st st'" using a b extends_trans by blast
  moreover have "mx_name n \<in> mx_name ` set (doc st')" if "NodeVal n \<in> set vs" for n
  proof (cases "v = NodeVal n")
    case True
    then have "mx_name n \<in> mx_name ` set (doc st1)" using a by simp
    then show ?thesis using b extends_names by blast
  next
    case False
    then have "NodeVal n \<in> set vs'" using that eq by simp
    then show ?thesis using b by simp
  qed
  ultimately show ?case by simp
qed

lemma binding_ref_set_value:
  "binding_ref (set_value rt val ty) = (case val of NodeVal m \<Rightarrow> Some (mx_name m) | Literal v \<Rightarrow> None)"
  by (simp add: binding_ref_def set_value_def split: input_value.splits)

lemma port_refs_simps:
  "port_refs [] = []"
  "port_refs (p # ps) = (case binding_ref (port_binding p) of None \<Rightarrow> port_refs ps | Some r \<Rightarrow> r # port_refs ps)"
  "port_refs (ps @ qs) = port_refs ps @ port_refs qs"
  by (simp_all add: port_refs_def List.map_filter_def split: option.splits)

lemma node_refs_ports: "node_refs n = port_refs (mx_inputs n) @ port_refs (mx_parameters n)"
  by (simp add: node_refs_def port_refs_def List.map_filter_def)

lemma add_inputs_refs:
  "add_inputs rt n kvs = Inr ports \<Longrightarrow> r \<in> set (port_refs ports) \<Longrightarrow>
     \<exists>m. NodeVal m \<in> snd ` set kvs \<and> r = mx_name m"
proof (induction kvs arbitrary: ports)
  case Nil
  then show ?case by (simp add: port_refs_simps)
next
  case (Cons kv kvs)
  obtain k v where kv: "kv = (k, v)" by (cases kv)
  from Cons.prems(1) kv obtain nd_input :: mx_param and ports' where
      ps: "add_inputs rt n kvs = Inr ports'"
      and eq: "ports = \<lparr>port_name = p_name nd_input, port_type = p_type nd_input,
                     port_binding = set_value rt v (p_type nd_input)\<rparr> # ports'"
    by (auto split: sum.splits option.splits)
  show ?case
  proof (cases "r \<in> set (port_refs ports')")
    case True
    then show ?thesis using Cons.IH[OF ps] kv by auto
  next
    case False
    then have "binding_ref (set_value rt v (p_type nd_input)) = Some r"
      using Cons.prems(2) eq by (auto simp: port_refs_simps split: option.splits)
    then obtain m where "v = NodeVal m" "r = mx_name m"
      by (auto simp: binding_ref_set_value split: input_value.splits)
    then show ?thesis using kv by force
  qed
qed

lemma add_parameters_refs:
  "add_parameters rt pr ps = Inr ports \<Longrightarrow> port_refs ports = []"
proof (induction ps arbitrary: ports)
  case Nil
  then show ?case by (simp add: port_refs_simps)
next
  case (Cons p ps)
  from Cons.prems obtain v ports' where
      ps: "add_parameters rt pr ps = Inr ports'"
      and eq: "ports = \<lparr>port_name = p_name p, port_type = p_type p,
                     port_binding = set_value rt (Literal v) (p_type p)\<rparr> # ports'"
    by (auto split: sum.splits)
  show ?case using Cons.IH[OF ps] eq by (simp add: port_refs_simps binding_ref_set_value)
qed

lemma MxNode_compute_result:
  assumes "MxNode_compute rec rt g self k st = Inr (r, st')"
  shows "\<exists>vs st1 node.
     input_values rec g self [0..<length (inputs (g self))]
         (log_write (LogCompute self (Some k)) st) = Inr (vs, st1)
     \<and> r = Some node \<and> st' = addNode node st1
     \<and> mx_name node = code_str rt (node_name (g self))
     \<and> (\<forall>x \<in> set (node_refs node). \<exists>m. NodeVal m \<in> set vs \<and> x = mx_name m)"
proof -
  from assms obtain pr where pr: "node_prop (g self) = Some pr"
    by (cases "node_prop (g self)") (simp_all add: MxNode_compute_def)
  from assms pr obtain nd_output where o: "get_nodedef_output rt (g self) k = Inr nd_output"
    by (cases "get_nodedef_output rt (g self) k") (simp_all add: MxNode_compute_def)
  from assms pr o obtain vs st1 where
    iv: "input_values rec g self [0..<length (inputs (g self))]
           (log_write (LogCompute self (Some k)) st) = Inr (vs, st1)"
    by (cases "input_values rec g self [0..<length (inputs (g self))]
                 (log_write (LogCompute self (Some k)) st)")
       (auto simp: MxNode_compute_def)
  from assms pr o iv obtain out where out: "nd_output = Some out"
    by (cases nd_output) (simp_all add: MxNode_compute_def)
  from assms pr o iv out obtain ins where
    ins: "add_inputs rt (g self) (zip [0..<length vs] vs) = Inr ins"
    by (cases "add_inputs rt (g self) (zip [0..<length vs] vs)")
       (simp_all add: MxNode_compute_def)
  from assms pr o iv out ins obtain params where
    ps: "add_parameters rt pr (nd_parameters (prop_nodedef pr)) = Inr params"
    by (cases "add_parameters rt pr (nd_parameters (prop_nodedef pr))")
       (simp_all add: MxNode_compute_def)
  let ?node = "\<lparr>mx_category = nd_node_string (prop_nodedef pr),
                 mx_name = code_str rt (node_name (g self)),
                 mx_type = p_type out, mx_inputs = ins, mx_parameters = params\<rparr>"
  have res: "r = Some ?node" "st' = addNode ?node st1"
    using assms pr o iv out ins ps by (simp_all add: MxNode_compute_def Let_def)
  have refs: "\<exists>m. NodeVal m \<in> set vs \<and> x = mx_name m" if "x \<in> set (node_refs ?node)" for x
  proof -
    have "x \<in> set (port_refs ins)"
      using that add_parameters_refs[OF ps] by (simp add: node_refs_ports)
    from add_inputs_refs[OF ins this]
    obtain m where m: "NodeVal m \<in> snd ` set (zip [0..<length vs] vs)" "x = mx_name m"
      by (elim exE conjE)
    from m(1) obtain kv where kv: "kv \<in> set (zip [0..<length vs] vs)" "NodeVal m = snd kv"
      by (elim imageE)
    obtain i v where iv': "kv = (i, v)" by (cases kv)
    have "v \<in> set vs" using kv(1) iv' by (auto dest: set_zip_rightD)
    then have "NodeVal m \<in> set vs" using kv(2) iv' by simp
    then show ?thesis using m(2) by (intro exI[of _ m]) simp
  qed
  have refs': "\<forall>x \<in> set (node_refs ?node). \<exists>m. NodeVal m \<in> set vs \<and> x = mx_name m"
    using refs by (intro ballI)
  have nm: "mx_name ?node = code_str rt (node_name (g self))" by simp
  show ?thesis
    by (intro exI[of _ vs] exI[of _ st1] exI[of _ ?node] conjI) (rule iv res nm refs')+
qed

lemma MxNode_compute_sound:
  assumes "sound_rec rec" "MxNode_compute rec rt g self k st = Inr (r, st')"
  shows "extends st st' \<and> (\<forall>n. r = Some n \<longrightarrow> mx_name n \<in> mx_name ` set (doc st'))"
proof -
  from MxNode_compute_result[OF assms(2)] obtain vs st1 node where
    iv: "input_values rec g self [0..<length (inputs (g self))]
           (log_write (LogCompute self (Some k)) st) = Inr (vs, st1)"
    and r: "r = Some node" and st': "st' = addNode node st1"
    and refs: "\<forall>x \<in> set (node_refs node). \<exists>m. NodeVal m \<in> set vs \<and> x = mx_name m"
    by (elim exE conjE)
  note s = input_values_sound[OF assms(1) iv]
  have "\<forall>x \<in> set (node_refs node). x \<in> mx_name ` set (doc st1)"
  proof
    fix x assume "x \<in> set (node_refs node)"
    with refs have "\<exists>m. NodeVal m \<in> set vs \<and> x = mx_name m" by (rule bspec)
    then obtain m where m: "NodeVal m \<in> set vs" "x = mx_name m" by (elim exE conjE)
    have "mx_name m \<in> mx_name ` set (doc st1)" using s m(1) by simp
    then show "x \<in> mx_name ` set (doc st1)" using m(2) by simp
  qed
  then have a: "extends st1 (addNode node st1)" by (rule extends_addNode)
  have "extends (log_write (LogCompute self (Some k)) st) st1" using s by simp
  then have "extends st st1" by (rule extends_trans[OF extends_log_write])
  then have "extends st st'" unfolding st' using a by (rule extends_trans)
  moreover have "mx_name node \<in> mx_name ` set (doc st')" unfolding st' by (rule names_addNode)
  ultimately show ?thesis using r by simp
qed

lemma MxNode_Output_compute_sound:
  assumes "sound_rec rec" "MxNode_Output_compute rec g self k st = Inr (r, st')"
  shows "extends st st' \<and> (\<forall>n. r = Some n \<longrightarrow> mx_name n \<in> mx_name ` set (doc st'))"
proof -
  let ?st0 = "log_write (LogCompute self None) st"
  from assms(2) obtain u st1 where
    l: "get_input_link rec g self (Key ''Surface'') ?st0 = Inr (u, st1)"
    by (cases "get_input_link rec g self (Key ''Surface'') ?st0")
       (auto simp: MxNode_Output_compute_def)
  note s = get_input_link_sound[OF assms(1) l]
  have "extends ?st0 st1" using s by simp
  then have e: "extends st st1" by (rule extends_trans[OF extends_log_write])
  show ?thesis
  proof (cases u)
    case None
    then have "r = None" "st' = st1" using assms(2) l by (simp_all add: MxNode_Output_compute_def)
    then show ?thesis using e by simp
  next
    case (Some node)
    show ?thesis
    proof (cases "mx_type node = ''surfaceshader''")
      case True
      then have "r = Some node" "st' = st1"
        using assms(2) l Some by (simp_all add: MxNode_Output_compute_def)
      then show ?thesis using e s Some by simp
    next
      case False
      let ?surface = "\<lparr>mx_category = ''surface'', mx_name = ''surface'',
                            mx_type = ''surfaceshader'',
                            mx_inputs = [\<lparr>port_name = ''bsdf'', port_type = mx_type node,
                                          port_binding = NodeName (mx_name node)\<rparr>],
                            mx_parameters = []\<rparr>"
      have res: "r = Some ?surface" "st' = addNode ?surface st1"
        using assms(2) l Some False by (simp_all add: MxNode_Output_compute_def Let_def)
      have nr: "node_refs ?surface = [mx_name node]"
        by (simp add: node_refs_ports port_refs_simps binding_ref_def)
      have "mx_name node \<in> mx_name ` set (doc st1)" using s Some by simp
      then have "\<forall>x \<in> set (node_refs ?surface). x \<in> mx_name ` set (doc st1)"
        unfolding nr by simp
      then have "extends st1 (addNode ?surface st1)" by (rule extends_addNode)
      with e have "extends st (addNode ?surface st1)" by (rule extends_trans)
      then have "extends st st'" using res by simp
      moreover have "mx_name ?surface \<in> mx_name ` set (doc (addNode ?surface st1))"
        by (simp add: addNode_def)
      ultimately show ?thesis using res by simp
    qed
  qed
qed

lemma compute_sound: "sound_rec (compute depth rt g)"
proof (induction depth)
  case 0
  show ?case by (simp add: sound_rec_def)
next
  case (Suc depth)
  show ?case
    unfolding sound_rec_def
  proof (intro allI impI)
    fix node k st r st'
    assume c: "compute (Suc depth) rt g node k st = Inr (r, st')"
    show "extends st st' \<and> (\<forall>n. r = Some n \<longrightarrow> mx_name n \<in> mx_name ` set (doc st'))"
    proof (cases "node_class (g node)")
      case Foreign
      then show ?thesis using c by simp
    next
      case MxNode
      then have "MxNode_compute (compute depth rt g) rt g node k st = Inr (r, st')"
        using c by simp
      then show ?thesis using Suc by (rule MxNode_compute_sound[rotated])
    next
      case MxNode_Output
      then have "MxNode_Output_compute (compute depth rt g) g node k st = Inr (r, st')"
        using c by simp
      then show ?thesis using Suc by (rule MxNode_Output_compute_sound[rotated])
    qed
  qed
qed

lemma sample_runtime_fields:
  "code_str sample_runtime s = s" "title_str sample_runtime s = s"
  "mx_has_type sample_runtime s = False"
  by (simp_all add: sample_runtime_def)

lemmas sample_defs =
  sample_graph_def mix_node_def shader_socket_def mix_nodedef_def constant_nodedef_def
  color_port_def sample_runtime_fields

lemmas compiler_defs =
  MxNode_compute_def MxNode_Output_compute_def get_nodedef_output_def get_input_value_def
  get_input_link_def compute_node_def lookup_input_def get_input_default_def
  get_nodedef_input_def get_param_value_def set_value_def Let_def

lemma compute_K:
  "compute (Suc d) sample_runtime sample_graph 2 ''out'' st =
     Inr (Some K_node, addNode K_node (log_write (LogCompute 2 (Some ''out'')) st))"
  by (simp add: compiler_defs sample_defs K_node_def)

lemma compute_M:
  "compute (Suc (Suc d)) sample_runtime sample_graph 6 ''out'' st =
     Inr (Some M_node,
          addNode M_node
            (addNode K_node (log_write (LogCompute 2 (Some ''out''))
              (addNode K_node (log_write (LogCompute 2 (Some ''out''))
                (log_write (LogCompute 6 (Some ''out'')) st))))))"
proof -
  have "compute (Suc (Suc d)) sample_runtime sample_graph 6 ''out'' st =
          MxNode_compute (compute (Suc d) sample_runtime sample_graph) sample_runtime
            sample_graph 6 ''out'' st"
    by (subst compute.simps(2)) (simp add: sample_graph_def mix_node_def del: compute.simps)
  also have "\<dots> = Inr (Some M_node,
          addNode M_node
            (addNode K_node (log_write (LogCompute 2 (Some ''out''))
              (addNode K_node (log_write (LogCompute 2 (Some ''out''))
                (log_write (LogCompute 6 (Some ''out'')) st))))))"
    by (simp add: compiler_defs sample_defs compute_K K_node_def M_node_def
          del: compute.simps)
  finally show ?thesis .
qed


lemma compute_output:
  "compute (Suc (Suc (Suc d))) sample_runtime sample_graph 0 k st =
     Inr (Some surface_node,
          addNode surface_node
           (addNode M_node
            (addNode K_node (log_write (LogCompute 2 (Some ''out''))
              (addNode K_node (log_write (LogCompute 2 (Some ''out''))
                (log_write (LogCompute 6 (Some ''out''))
                  (log_write (LogCompute 0 None) st))))))))"
proof -
  have "compute (Suc (Suc (Suc d))) sample_runtime sample_graph 0 k st =
          MxNode_Output_compute (compute (Suc (Suc d)) sample_runtime sample_graph)
            sample_graph 0 k st"
    by (subst compute.simps(2)) (simp add: sample_graph_def del: compute.simps)
  also have "\<dots> = Inr (Some surface_node,
          addNode surface_node
           (addNode M_node
            (addNode K_node (log_write (LogCompute 2 (Some ''out''))
              (addNode K_node (log_write (LogCompute 2 (Some ''out''))
                (log_write (LogCompute 6 (Some ''out''))
                  (log_write (LogCompute 0 None) st))))))))"
    by (simp add: compiler_defs sample_graph_def shader_socket_def mix_node_def
          compute_M M_node_def surface_node_def del: compute.simps)
  finally show ?thesis .
qed

lemma doc_addNode: "doc (addNode n st) = doc st @ [n]"
  by (simp add: addNode_def)

lemma logs_simps: "logs (addNode n st) = logs st" "logs (log_write e st) = logs st @ [e]"
  by (simp_all add: addNode_def log_write_def)


text \<open>
  C4. \<^verbatim>\<open>compute\<close> of the material output, when the link of its \<^verbatim>\<open>Surface\<close> input
  compiles to a node: a node of type \<^verbatim>\<open>surfaceshader\<close> is returned as it is and the
  document is left as the upstream compilation made it; for a node of any other type
  exactly one node is appended, of category \<^verbatim>\<open>surface\<close>, with the single input
  \<^verbatim>\<open>bsdf\<close> bound to the name of the upstream node, and that node is returned.
\<close>

theorem output_terminal_resolution:
  assumes "node_class (g self) = MxNode_Output"
    and "get_input_link (compute depth rt g) g self (Key ''Surface'')
           (log_write (LogCompute self None) st) = Inr (Some node, st1)"
  shows "(mx_type node = ''surfaceshader'' \<longrightarrow>
            compute (Suc depth) rt g self out_key st = Inr (Some node, st1))
     \<and> (mx_type node \<noteq> ''surfaceshader'' \<longrightarrow>
          (\<exists>st'. compute (Suc depth) rt g self out_key st =
                   Inr (Some \<lparr>mx_category = ''surface'', mx_name = ''surface'',
                              mx_type = ''surfaceshader'',
                              mx_inputs = [\<lparr>port_name = ''bsdf'', port_type = mx_type node,
                                            port_binding = NodeName (mx_name node)\<rparr>],
                              mx_parameters = []\<rparr>, st')
             \<and> doc st' = doc st1 @ [\<lparr>mx_category = ''surface'', mx_name = ''surface'',
                              mx_type = ''surfaceshader'',
                              mx_inputs = [\<lparr>port_name = ''bsdf'', port_type = mx_type node,
                                            port_binding = NodeName (mx_name node)\<rparr>],
                              mx_parameters = []\<rparr>]
             \<and> logs st' = logs st1))"
  using assms by (simp add: MxNode_Output_compute_def Let_def addNode_def)

text \<open>
  C5. \<^verbatim>\<open>compute\<close> of the material output returns \<^verbatim>\<open>None\<close> without raising when its
  \<^verbatim>\<open>Surface\<close> input has no link, and the document is unchanged; when the link
  compiles to nothing, it returns \<^verbatim>\<open>None\<close> with the state the upstream compilation
  left, so the terminal step adds no node.
\<close>

theorem output_unlinked_surface:
  assumes "node_class (g self) = MxNode_Output"
  shows "(\<forall>s. lookup_input (inputs (g self)) (Key ''Surface'') = Inr s \<and> links s = [] \<longrightarrow>
            (\<exists>st'. compute (Suc depth) rt g self out_key st = Inr (None, st')
               \<and> doc st' = doc st \<and> logs st' = logs st @ [LogCompute self None]))
     \<and> (\<forall>st1. get_input_link (compute depth rt g) g self (Key ''Surface'')
                  (log_write (LogCompute self None) st) = Inr (None, st1) \<longrightarrow>
            compute (Suc depth) rt g self out_key st = Inr (None, st1))"
proof (intro conjI allI impI)
  fix s
  assume "lookup_input (inputs (g self)) (Key ''Surface'') = Inr s \<and> links s = []"
  then have "compute (Suc depth) rt g self out_key st =
               Inr (None, log_write (LogCompute self None) st)"
    using assms by (simp add: MxNode_Output_compute_def get_input_link_def)
  then show "\<exists>st'. compute (Suc depth) rt g self out_key st = Inr (None, st')
               \<and> doc st' = doc st \<and> logs st' = logs st @ [LogCompute self None]"
    by (simp add: log_write_def)
next
  fix st1
  assume "get_input_link (compute depth rt g) g self (Key ''Surface'')
            (log_write (LogCompute self None) st) = Inr (None, st1)"
  then show "compute (Suc depth) rt g self out_key st = Inr (None, st1)"
    using assms by (simp add: MxNode_Output_compute_def)
qed


lemma sample_N_bg:
  "lookup_input (inputs (sample_graph 4)) (Idx (Suc 0)) =
     Inr \<lparr>sock_name = ''Bg'', node_prop_name = ''in_bg'',
          links = [\<lparr>is_valid = False, from_node = 2, from_socket = ''out''\<rparr>]\<rparr>"
  "get_input_default sample_graph 4 (Idx (Suc 0)) = Inr ''0,0,0''"
  by (simp_all add: sample_graph_def mix_node_def lookup_input_def get_input_default_def)

lemma sample_N_bg_value:
  "get_input_value (compute (Suc 0) sample_runtime sample_graph) sample_graph 4 (Idx (Suc 0)) st =
     Inr (NodeVal K_node,
          addNode K_node (log_write (LogCompute 2 (Some ''out''))
            (log_write (LogErrorInvalidLink 2 ''out'' ''Bg'' 4) st)))"
  by (simp add: get_input_value_def get_input_link_def compute_node_def lookup_input_def
        sample_graph_def mix_node_def compute_K del: compute.simps)

lemma sample_output_link:
  "get_input_link (compute (Suc (Suc 0)) sample_runtime sample_graph) sample_graph 0
       (Key ''Surface'') st =
     Inr (Some M_node,
          addNode M_node
            (addNode K_node (log_write (LogCompute 2 (Some ''out''))
              (addNode K_node (log_write (LogCompute 2 (Some ''out''))
                (log_write (LogCompute 6 (Some ''out'')) st))))))"
  by (simp add: get_input_link_def compute_node_def lookup_input_def sample_graph_def
        shader_socket_def mix_node_def compute_M del: compute.simps)

lemma sample_unlinked_output:
  "node_class (sample_graph 5) = MxNode_Output"
  "lookup_input (inputs (sample_graph 5)) (Key ''Surface'') = Inr (shader_socket ''Surface'' [])"
  "links (shader_socket ''Surface'' []) = []"
  by (simp_all add: sample_graph_def lookup_input_def shader_socket_def)

text \<open>
  C10. A \<^verbatim>\<open>compute\<close> call that returns only appends nodes to the document, and
  keeps it in topological order: every node referred to by name stands strictly before
  the node that refers to it. For an \<^verbatim>\<open>MxNode\<close>, all input values are resolved first,
  then the node's own document node is appended as the last one, and every name it refers
  to is already in the document before it.
\<close>

theorem compute_topological_order:
  assumes "compute depth rt g self out_key st = Inr (r, st')"
  shows "(\<exists>new. doc st' = doc st @ new)
     \<and> (topological (doc st) \<longrightarrow> topological (doc st'))
     \<and> (node_class (g self) = MxNode \<longrightarrow>
          (\<exists>d vs st1 node. depth = Suc d
             \<and> input_values (compute d rt g) g self [0..<length (inputs (g self))]
                  (log_write (LogCompute self (Some out_key)) st) = Inr (vs, st1)
             \<and> r = Some node \<and> doc st' = doc st1 @ [node]
             \<and> (\<forall>x \<in> set (node_refs node). x \<in> mx_name ` set (doc st1))))"
proof (intro conjI impI)
  have e: "extends st st'"
    using sound_recD[OF compute_sound assms] by simp
  then show "\<exists>new. doc st' = doc st @ new" by (simp add: extends_def)
  show "topological (doc st')" if "topological (doc st)"
    using e that by (simp add: extends_def)
next
  assume cls: "node_class (g self) = MxNode"
  obtain d where d: "depth = Suc d" using assms by (cases depth) simp_all
  have m: "MxNode_compute (compute d rt g) rt g self out_key st = Inr (r, st')"
    using assms cls unfolding d by simp
  from MxNode_compute_result[OF m] obtain vs st1 node where
    iv: "input_values (compute d rt g) g self [0..<length (inputs (g self))]
           (log_write (LogCompute self (Some out_key)) st) = Inr (vs, st1)"
    and r: "r = Some node" and st': "st' = addNode node st1"
    and refs: "\<forall>x \<in> set (node_refs node). \<exists>m. NodeVal m \<in> set vs \<and> x = mx_name m"
    by (elim exE conjE)
  note s = input_values_sound[OF compute_sound iv]
  have refs': "\<forall>x \<in> set (node_refs node). x \<in> mx_name ` set (doc st1)"
  proof
    fix x assume "x \<in> set (node_refs node)"
    with refs have "\<exists>m. NodeVal m \<in> set vs \<and> x = mx_name m" by (rule bspec)
    then obtain m where m: "NodeVal m \<in> set vs" "x = mx_name m" by (elim exE conjE)
    have "mx_name m \<in> mx_name ` set (doc st1)" using s m(1) by simp
    then show "x \<in> mx_name ` set (doc st1)" using m(2) by simp
  qed
  have dd: "doc st' = doc st1 @ [node]" unfolding st' by (simp add: addNode_def)
  show "\<exists>d vs st1 node. depth = Suc d
             \<and> input_values (compute d rt g) g self [0..<length (inputs (g self))]
                  (log_write (LogCompute self (Some out_key)) st) = Inr (vs, st1)
             \<and> r = Some node \<and> doc st' = doc st1 @ [node]
             \<and> (\<forall>x \<in> set (node_refs node). x \<in> mx_name ` set (doc st1))"
    by (intro exI[of _ d] exI[of _ vs] exI[of _ st1] exI[of _ node] conjI)
       (rule d iv r dd refs')+
qed

theorem compute_topological_order_witness:
  "compute (Suc (Suc (Suc 0))) sample_runtime sample_graph 0 [] empty_state =
     Inr (Some surface_node,
          addNode surface_node
           (addNode M_node
            (addNode K_node (log_write (LogCompute 2 (Some ''out''))
              (addNode K_node (log_write (LogCompute 2 (Some ''out''))
                (log_write (LogCompute 6 (Some ''out''))
                  (log_write (LogCompute 0 None) empty_state))))))))
   \<and> topological (doc empty_state)
   \<and> topological [K_node, K_node, M_node, surface_node]"
proof -
  note e = compute_output[of 0 "[]" empty_state]
  have t0: "topological (doc empty_state)" by (simp add: topological_def empty_state_def)
  have "topological (doc (addNode surface_node
           (addNode M_node
            (addNode K_node (log_write (LogCompute 2 (Some ''out''))
              (addNode K_node (log_write (LogCompute 2 (Some ''out''))
                (log_write (LogCompute 6 (Some ''out''))
                  (log_write (LogCompute 0 None) empty_state))))))))) "
    using compute_topological_order[OF e] t0 by simp
  then have "topological [K_node, K_node, M_node, surface_node]"
    by (simp add: doc_addNode doc_log_write empty_state_def)
  then show ?thesis using e t0 by simp
qed


theorem output_terminal_resolution_witness:
  "node_class (sample_graph 0) = MxNode_Output
   \<and> (\<exists>st1. get_input_link (compute (Suc (Suc 0)) sample_runtime sample_graph) sample_graph 0
              (Key ''Surface'') (log_write (LogCompute 0 None) empty_state) = Inr (Some M_node, st1))
   \<and> mx_type M_node \<noteq> ''surfaceshader''
   \<and> (\<exists>st'. compute (Suc (Suc (Suc 0))) sample_runtime sample_graph 0 [] empty_state =
               Inr (Some surface_node, st')
          \<and> doc st' = [K_node, K_node, M_node, surface_node])"
proof -
  have c: "node_class (sample_graph 0) = MxNode_Output" by (simp add: sample_graph_def)
  note l = sample_output_link[of "log_write (LogCompute 0 None) empty_state"]
  have m: "mx_type M_node \<noteq> ''surfaceshader''" by (simp add: M_node_def)
  from output_terminal_resolution[where g=sample_graph and self=0 and out_key="[]", OF c l,
      THEN conjunct2, rule_format, OF m]
  obtain st' where
    r: "compute (Suc (Suc (Suc 0))) sample_runtime sample_graph 0 [] empty_state =
          Inr (Some \<lparr>mx_category = ''surface'', mx_name = ''surface'',
                     mx_type = ''surfaceshader'',
                     mx_inputs = [\<lparr>port_name = ''bsdf'', port_type = mx_type M_node,
                                   port_binding = NodeName (mx_name M_node)\<rparr>],
                     mx_parameters = []\<rparr>, st')"
    and d: "doc st' = doc (addNode M_node
            (addNode K_node (log_write (LogCompute 2 (Some ''out''))
              (addNode K_node (log_write (LogCompute 2 (Some ''out''))
                (log_write (LogCompute 6 (Some ''out''))
                  (log_write (LogCompute 0 None) empty_state))))))) @ [\<lparr>mx_category = ''surface'', mx_name = ''surface'',
                     mx_type = ''surfaceshader'',
                     mx_inputs = [\<lparr>port_name = ''bsdf'', port_type = mx_type M_node,
                                   port_binding = NodeName (mx_name M_node)\<rparr>],
                     mx_parameters = []\<rparr>]"
    by (elim conjE exE)
  have s: "\<lparr>mx_category = ''surface'', mx_name = ''surface'',
                     mx_type = ''surfaceshader'',
                     mx_inputs = [\<lparr>port_name = ''bsdf'', port_type = mx_type M_node,
                                   port_binding = NodeName (mx_name M_node)\<rparr>],
                     mx_parameters = []\<rparr> = surface_node"
    by (simp add: surface_node_def M_node_def)
  have a: "\<exists>st1. get_input_link (compute (Suc (Suc 0)) sample_runtime sample_graph) sample_graph 0
              (Key ''Surface'') (log_write (LogCompute 0 None) empty_state) = Inr (Some M_node, st1)"
    using l by (intro exI)
  have b: "\<exists>st'. compute (Suc (Suc (Suc 0))) sample_runtime sample_graph 0 [] empty_state =
               Inr (Some surface_node, st')
          \<and> doc st' = [K_node, K_node, M_node, surface_node]"
    using r d unfolding s
    by (intro exI[of _ st']) (simp add: doc_addNode doc_log_write empty_state_def del: compute.simps)
  show ?thesis by (intro conjI) (rule c a m b)+
qed

theorem output_unlinked_surface_witness:
  "node_class (sample_graph 5) = MxNode_Output
   \<and> lookup_input (inputs (sample_graph 5)) (Key ''Surface'') = Inr (shader_socket ''Surface'' [])
   \<and> links (shader_socket ''Surface'' []) = []
   \<and> (\<exists>st'. compute (Suc 0) sample_runtime sample_graph 5 [] empty_state = Inr (None, st')
          \<and> doc st' = [] \<and> logs st' = [LogCompute 5 None])"
proof -
  have h: "lookup_input (inputs (sample_graph 5)) (Key ''Surface'') = Inr (shader_socket ''Surface'' [])
      \<and> links (shader_socket ''Surface'' []) = []"
    using sample_unlinked_output(2,3) by simp
  from output_unlinked_surface[where g=sample_graph and self=5 and depth=0
      and rt=sample_runtime and out_key="[]" and st=empty_state,
      OF sample_unlinked_output(1), THEN conjunct1, rule_format, OF h]
  have "\<exists>st'. compute (Suc 0) sample_runtime sample_graph 5 [] empty_state = Inr (None, st')
          \<and> doc st' = [] \<and> logs st' = [LogCompute 5 None]"
    by (simp add: empty_state_def del: compute.simps)
  then show ?thesis using sample_unlinked_output by simp
qed

text \<open>
  A \<^verbatim>\<open>compute\<close> call of an \<^verbatim>\<open>MxNode\<close> that returns has added a document node of
  its own, whatever the document held before: no result of an earlier call is reused.
\<close>

lemma MxNode_compute_appends:
  assumes "node_class (g self) = MxNode"
    and "compute depth rt g self out_key st = Inr (r, st')"
  shows "length (doc st) < length (doc st')"
proof -
  obtain d where d: "depth = Suc d" using assms(2) by (cases depth) simp_all
  have m: "MxNode_compute (compute d rt g) rt g self out_key st = Inr (r, st')"
    using assms unfolding d by simp
  from MxNode_compute_result[OF m] obtain vs st1 node where
    iv: "input_values (compute d rt g) g self [0..<length (inputs (g self))]
           (log_write (LogCompute self (Some out_key)) st) = Inr (vs, st1)"
    and st': "st' = addNode node st1"
    by (elim exE conjE)
  have "extends (log_write (LogCompute self (Some out_key)) st) st1"
    using input_values_sound[OF compute_sound iv] by simp
  then obtain new where "doc st1 = doc st @ new"
    by (auto simp: extends_def doc_log_write)
  then show ?thesis unfolding st' by (simp add: doc_addNode)
qed

text \<open>
  \<^verbatim>\<open>get_input_link\<close> on a link that is not valid: the error is logged, and the
  upstream node is compiled as for a valid link.
\<close>

lemma get_input_link_follows_invalid_link:
  assumes "lookup_input (inputs (g self)) in_key = Inr s"
    and "links s = l # ls"
    and "\<not> is_valid l"
  shows "get_input_link rec g self in_key st =
           compute_node rec g (from_node l) (from_socket l)
             (log_write (LogErrorInvalidLink (from_node l) (from_socket l) (sock_name s) self) st)"
  using assms by (simp add: get_input_link_def)

text \<open>
  C1. There is no memoization: compiling the mix node 6, whose two inputs are linked to
  the same output of node 2, adds the document node of node 2 twice; and compiling the
  same node and output twice in one pass adds a second document node of the same name.
\<close>

theorem shared_node_compiled_twice:
  "(\<exists>st'. compute (Suc (Suc 0)) sample_runtime sample_graph 6 ''out'' empty_state =
            Inr (Some M_node, st')
       \<and> doc st' = [K_node, K_node, M_node])
   \<and> (\<exists>st1 st2. compute (Suc 0) sample_runtime sample_graph 2 ''out'' empty_state =
                   Inr (Some K_node, st1)
       \<and> compute (Suc 0) sample_runtime sample_graph 2 ''out'' st1 = Inr (Some K_node, st2)
       \<and> doc st1 = [K_node] \<and> doc st2 = [K_node, K_node])"
  by (simp add: compute_M compute_K doc_addNode doc_log_write empty_state_def del: compute.simps)

text \<open>
  C2. A link that is not valid is logged and then followed all the same: the upstream
  node is compiled and added to the document, and its compiled node is the value of the
  input, not the value held on the node.
\<close>

theorem invalid_link_still_compiled:
  "lookup_input (inputs (sample_graph 4)) (Idx (Suc 0)) =
     Inr \<lparr>sock_name = ''Bg'', node_prop_name = ''in_bg'',
          links = [\<lparr>is_valid = False, from_node = 2, from_socket = ''out''\<rparr>]\<rparr>
   \<and> get_input_default sample_graph 4 (Idx (Suc 0)) = Inr ''0,0,0''
   \<and> (\<exists>st'. get_input_value (compute (Suc 0) sample_runtime sample_graph) sample_graph 4 (Idx (Suc 0))
               empty_state = Inr (NodeVal K_node, st')
          \<and> doc st' = [K_node]
          \<and> logs st' = [LogErrorInvalidLink 2 ''out'' ''Bg'' 4, LogCompute 2 (Some ''out'')])"
proof -
  have "\<exists>st'. get_input_value (compute (Suc 0) sample_runtime sample_graph) sample_graph 4 (Idx (Suc 0))
               empty_state = Inr (NodeVal K_node, st')
          \<and> doc st' = [K_node]
          \<and> logs st' = [LogErrorInvalidLink 2 ''out'' ''Bg'' 4, LogCompute 2 (Some ''out'')]"
    by (simp add: sample_N_bg_value doc_addNode doc_log_write logs_simps empty_state_def
          del: compute.simps)
  then show ?thesis using sample_N_bg by simp
qed

end
